theory Spec2Isabelle
  imports Complex_Main
begin

section \<open>Tensors, the object store and errors\<close>

text \<open>
  The notebook \<^verbatim>\<open>A_PyTorch_introduction__autograd_in_action.ipynb\<close> defines two
  parametrised modules (\<^verbatim>\<open>Gaussian\<close>, \<^verbatim>\<open>GaussianCombination\<close>), two optimizer
  classes (\<^verbatim>\<open>GradientDescent\<close>, \<^verbatim>\<open>MomentumGradientDescent\<close>) and the driver
  \<^verbatim>\<open>minimize\<close>.

  Exceptions are values of the type \<open>error\<close>; a function that can raise returns
  \<open>error + 'a\<close> with \<open>Inl\<close> for the exception.
\<close>

datatype error = AssertionError | ValueError | TypeError | RuntimeError

text \<open>
  A Python \<^verbatim>\<open>float\<close> is a double: a finite number, an infinity or a NaN.
  \<open>pyfloat_less\<close> is its \<^verbatim>\<open><\<close>, which is false whenever a NaN is compared.
\<close>

datatype pyfloat = Finite real | PosInf | NegInf | NaN

fun pyfloat_less :: "pyfloat \<Rightarrow> pyfloat \<Rightarrow> bool" where
  "pyfloat_less (Finite a) (Finite b) = (a < b)"
| "pyfloat_less (Finite a) PosInf = True"
| "pyfloat_less NegInf (Finite b) = True"
| "pyfloat_less NegInf PosInf = True"
| "pyfloat_less _ _ = False"

text \<open>
  The literal \<^verbatim>\<open>1e-6\<close> of \<open>minimize\<close> is the double nearest to one millionth.
\<close>

definition threshold :: pyfloat where
  "threshold = Finite (4722366482869645 / 2 ^ 72)"

text \<open>
  The arithmetic on tensor entries is the tensor library's (on 32-bit floats unless a
  tensor is created otherwise), not code of the notebook. The operations that the
  optimizers and \<open>minimize\<close> call are therefore parameters of the model, over a type
  \<open>'a\<close> of entries:
  \<^item> \<open>zeros\<close>, the entry that \<^verbatim>\<open>zero_()\<close> and \<^verbatim>\<open>torch.zeros_like\<close> write;
  \<^item> \<open>iadd\<close>, the addition by which a backward pass accumulates a gradient entry;
  \<^item> \<open>isub\<close>, the subtraction of \<^verbatim>\<open>param -= ...\<close> on one entry;
  \<^item> \<open>smul\<close>, the product of the Python number \<^verbatim>\<open>self.lr\<close> and one entry;
  \<^item> \<open>sum_sq\<close>, the Python float \<^verbatim>\<open>float(torch.sum(g ** 2))\<close> of a tensor \<open>g\<close>.
  Every property below is proved for all such operations, hence for the library's.
\<close>

record 'a torch_ops =
  zeros :: 'a
  iadd :: "'a \<Rightarrow> 'a \<Rightarrow> 'a"
  isub :: "'a \<Rightarrow> 'a \<Rightarrow> 'a"
  smul :: "real \<Rightarrow> 'a \<Rightarrow> 'a"
  sum_sq :: "'a list \<Rightarrow> pyfloat"

text \<open>
  The optimizers mutate tensors in place and \<^verbatim>\<open>minimize\<close> stores clones of the
  iterate, so tensors live in a store and are referred to by address. A stored tensor
  is one-dimensional: its \<open>data\<close> and its gradient accumulator \<open>grad\<close>, which is
  \<open>None\<close> until a backward pass has filled it. A new tensor is allocated at the end
  of the store.
\<close>

record 'a tensor =
  data :: "'a list"
  grad :: "'a list option"

type_synonym addr = nat
type_synonym 'a heap = "'a tensor list"

definition alloc :: "'a tensor \<Rightarrow> 'a heap \<Rightarrow> addr \<times> 'a heap" where
  "alloc t h = (length h, h @ [t])"

text \<open>\<^verbatim>\<open>torch.zeros_like(param, requires_grad=False)\<close>\<close>

definition zeros_like :: "'a torch_ops \<Rightarrow> 'a tensor \<Rightarrow> 'a tensor" where
  "zeros_like ops t = \<lparr>data = map (\<lambda>_. zeros ops) (data t), grad = None\<rparr>"

text \<open>\<^verbatim>\<open>t.data.clone()\<close>: a new tensor with a copy of the values and no gradient.\<close>

definition clone :: "'a tensor \<Rightarrow> 'a tensor" where
  "clone t = \<lparr>data = data t, grad = None\<rparr>"

section \<open>The optimizers\<close>

text \<open>
  \<^verbatim>\<open>
  class GradientDescent:
      def __init__(self, params, lr=0.1):
          self.params = params
          self.lr = lr
      def step(self):
          with torch.no_grad():
              for param in self.params:
                  param -= self.lr * param.grad
      def zero_grad(self):
          for param in self.params:
              if param.grad is not None:
                  param.grad.zero_()
  \<close>
  A method takes the object and the store and returns both. \<open>MomentumGradientDescent\<close>
  is a subclass; the record extension lets it inherit \<open>zero_grad\<close>.
\<close>

record GradientDescent =
  params :: "addr list"
  lr :: real

record MomentumGradientDescent = GradientDescent +
  momentum :: real
  velocities :: "addr list"

definition GradientDescent_init :: "addr list \<Rightarrow> real \<Rightarrow> GradientDescent" where
  "GradientDescent_init ps l = \<lparr>params = ps, lr = l\<rparr>"

text \<open>
  \<^verbatim>\<open>param -= self.lr * param.grad\<close> for one parameter: with no gradient the product
  \<^verbatim>\<open>self.lr * None\<close> raises \<^verbatim>\<open>TypeError\<close>; otherwise the product is taken entry
  by entry and the data is overwritten entry by entry.
\<close>

definition isub_scaled :: "'a torch_ops \<Rightarrow> real \<Rightarrow> 'a list \<Rightarrow> 'a list \<Rightarrow> 'a list" where
  "isub_scaled ops l x g = map2 (isub ops) x (map (smul ops l) g)"

fun step_params :: "'a torch_ops \<Rightarrow> real \<Rightarrow> addr list \<Rightarrow> 'a heap \<Rightarrow> error + 'a heap" where
  "step_params ops l [] h = Inr h"
| "step_params ops l (p # ps) h =
     (case grad (h ! p) of
        None \<Rightarrow> Inl TypeError
      | Some g \<Rightarrow>
          step_params ops l ps (h[p := (h ! p)\<lparr>data := isub_scaled ops l (data (h ! p)) g\<rparr>]))"

definition GradientDescent_step ::
  "'a torch_ops \<Rightarrow> GradientDescent \<Rightarrow> 'a heap \<Rightarrow> error + (GradientDescent \<times> 'a heap)" where
  "GradientDescent_step ops self h =
     (case step_params ops (lr self) (params self) h of
        Inl e \<Rightarrow> Inl e
      | Inr h' \<Rightarrow> Inr (self, h'))"

fun zero_grad_params :: "'a torch_ops \<Rightarrow> addr list \<Rightarrow> 'a heap \<Rightarrow> 'a heap" where
  "zero_grad_params ops [] h = h"
| "zero_grad_params ops (p # ps) h =
     zero_grad_params ops ps
       (case grad (h ! p) of
          None \<Rightarrow> h
        | Some g \<Rightarrow> h[p := (h ! p)\<lparr>grad := Some (map (\<lambda>_. zeros ops) g)\<rparr>])"

definition GradientDescent_zero_grad ::
  "'a torch_ops \<Rightarrow> 'b GradientDescent_scheme \<Rightarrow> 'a heap
     \<Rightarrow> 'b GradientDescent_scheme \<times> 'a heap" where
  "GradientDescent_zero_grad ops self h = (self, zero_grad_params ops (params self) h)"

text \<open>
  \<^verbatim>\<open>
  class MomentumGradientDescent(GradientDescent):
      def __init__(self, params, lr=0.1, momentum=.9):
          super(MomentumGradientDescent, self).__init__(params, lr)
          self.momentum = momentum
          self.velocities = [torch.zeros_like(param, requires_grad=False)
                             for param in params]
      def step(self):
          # TODO: implement me!
          pass
  \<close>
\<close>

fun alloc_velocities :: "'a torch_ops \<Rightarrow> addr list \<Rightarrow> 'a heap \<Rightarrow> addr list \<times> 'a heap" where
  "alloc_velocities ops [] h = ([], h)"
| "alloc_velocities ops (p # ps) h =
     (let (a, h1) = alloc (zeros_like ops (h ! p)) h;
          (as, h2) = alloc_velocities ops ps h1
      in (a # as, h2))"

definition MomentumGradientDescent_init ::
  "'a torch_ops \<Rightarrow> addr list \<Rightarrow> real \<Rightarrow> real \<Rightarrow> 'a heap
     \<Rightarrow> MomentumGradientDescent \<times> 'a heap" where
  "MomentumGradientDescent_init ops ps l mu h =
     (let (vs, h') = alloc_velocities ops ps h
      in (\<lparr>params = ps, lr = l, momentum = mu, velocities = vs\<rparr>, h'))"

definition MomentumGradientDescent_step ::
  "MomentumGradientDescent \<Rightarrow> 'a heap \<Rightarrow> error + (MomentumGradientDescent \<times> 'a heap)" where
  "MomentumGradientDescent_step self h = Inr (self, h)"

section \<open>The minimization driver\<close>

text \<open>
  \<^verbatim>\<open>minimize\<close> accepts an object of one of the two classes above (it has the
  attribute \<^verbatim>\<open>params\<close>) or an optimizer of the tensor library, which has
  \<^verbatim>\<open>param_groups\<close> instead. The library's optimizers are not code of the notebook:
  such an object is its parameter groups, a private state and its two methods, left
  abstract. The object holds references to the tensors of its groups and to nothing
  else of the store: a method is given the contents of these tensors and returns
  their new contents, which \<open>write_back\<close> puts into the store.
\<close>

record ('a, 's) TorchOptimizer =
  param_groups :: "addr list list"
  torch_state :: 's
  torch_zero_grad :: "'s \<Rightarrow> 'a tensor list \<Rightarrow> error + ('s \<times> 'a tensor list)"
  torch_step :: "'s \<Rightarrow> 'a tensor list \<Rightarrow> error + ('s \<times> 'a tensor list)"

datatype ('a, 's) optimizer =
    Gd GradientDescent
  | Mgd MomentumGradientDescent
  | Torch "('a, 's) TorchOptimizer"

fun hasattr_params :: "('a, 's) optimizer \<Rightarrow> bool" where
  "hasattr_params (Gd g) = True"
| "hasattr_params (Mgd m) = True"
| "hasattr_params (Torch t) = False"

fun write_back :: "addr list \<Rightarrow> 'a tensor list \<Rightarrow> 'a heap \<Rightarrow> 'a heap" where
  "write_back (p # ps) (t # ts) h = write_back ps ts (h[p := t])"
| "write_back _ _ h = h"

definition torch_call ::
  "('s \<Rightarrow> 'a tensor list \<Rightarrow> error + ('s \<times> 'a tensor list)) \<Rightarrow> ('a, 's) TorchOptimizer
     \<Rightarrow> 'a heap \<Rightarrow> error + (('a, 's) optimizer \<times> 'a heap)" where
  "torch_call method t h =
     (case method (torch_state t) (map (\<lambda>p. h ! p) (concat (param_groups t))) of
        Inl e \<Rightarrow> Inl e
      | Inr (s', ts) \<Rightarrow>
          Inr (Torch (t\<lparr>torch_state := s'\<rparr>), write_back (concat (param_groups t)) ts h))"

fun optimizer_zero_grad ::
  "'a torch_ops \<Rightarrow> ('a, 's) optimizer \<Rightarrow> 'a heap \<Rightarrow> error + (('a, 's) optimizer \<times> 'a heap)" where
  "optimizer_zero_grad ops (Gd g) h =
     (case GradientDescent_zero_grad ops g h of (g', h') \<Rightarrow> Inr (Gd g', h'))"
| "optimizer_zero_grad ops (Mgd m) h =
     (case GradientDescent_zero_grad ops m h of (m', h') \<Rightarrow> Inr (Mgd m', h'))"
| "optimizer_zero_grad ops (Torch t) h = torch_call (torch_zero_grad t) t h"

fun optimizer_step ::
  "'a torch_ops \<Rightarrow> ('a, 's) optimizer \<Rightarrow> 'a heap \<Rightarrow> error + (('a, 's) optimizer \<times> 'a heap)" where
  "optimizer_step ops (Gd g) h =
     (case GradientDescent_step ops g h of
        Inl e \<Rightarrow> Inl e
      | Inr (g', h') \<Rightarrow> Inr (Gd g', h'))"
| "optimizer_step ops (Mgd m) h =
     (case MomentumGradientDescent_step m h of
        Inl e \<Rightarrow> Inl e
      | Inr (m', h') \<Rightarrow> Inr (Mgd m', h'))"
| "optimizer_step ops (Torch t) h = torch_call (torch_step t) t h"

text \<open>
  \<^verbatim>\<open>
  if hasattr(optimizer, 'params'):
      [iterate] = optimizer.params
  else:
      # For pytorch optimizers.
      assert len(optimizer.param_groups) == 1
      [iterate] = optimizer.param_groups[0]['params']
  \<close>
  Unpacking a list that does not have exactly one element raises \<^verbatim>\<open>ValueError\<close>.
\<close>

fun unpack_single :: "addr list \<Rightarrow> error + addr" where
  "unpack_single [a] = Inr a"
| "unpack_single _ = Inl ValueError"

fun get_iterate :: "('a, 's) optimizer \<Rightarrow> error + addr" where
  "get_iterate (Gd g) = unpack_single (params g)"
| "get_iterate (Mgd m) = unpack_single (params m)"
| "get_iterate (Torch t) =
     (if length (param_groups t) \<noteq> 1 then Inl AssertionError
      else unpack_single (hd (param_groups t)))"

text \<open>
  The objective \<open>f\<close> is a differentiable function of the library, and
  \<^verbatim>\<open>value = f(iterate); value.backward()\<close> is the library's reverse-mode
  differentiation. It is modelled by what it leaves behind: either call raises, or the
  gradient of \<open>f\<close> at the iterate's data, of the iterate's shape, is added to the
  iterate's accumulator (and stored there when the accumulator is \<open>None\<close>).
\<close>

type_synonym 'a objective = "'a list \<Rightarrow> error + 'a list"

definition backward :: "'a torch_ops \<Rightarrow> 'a objective \<Rightarrow> addr \<Rightarrow> 'a heap \<Rightarrow> error + 'a heap" where
  "backward ops f it h =
     (case f (data (h ! it)) of
        Inl e \<Rightarrow> Inl e
      | Inr g \<Rightarrow>
          if length g \<noteq> length (data (h ! it)) then Inl RuntimeError
          else Inr (h[it := (h ! it)\<lparr>grad :=
                 Some (case grad (h ! it) of
                         None \<Rightarrow> g
                       | Some g0 \<Rightarrow> map2 (iadd ops) g0 g)\<rparr>]))"

text \<open>
  \<^verbatim>\<open>
  iterate_record = []
  for i in range(max_iter):
      optimizer.zero_grad()
      value = f(iterate)
      value.backward()
      if float(torch.sum(iterate.grad ** 2)) < 1e-6:
          break
      iterate_record.append(iterate.data.clone()[None, :])
      optimizer.step()
  return torch.cat(iterate_record, dim=0)
  \<close>
  The loop function takes the number of indices of \<^verbatim>\<open>range(max_iter)\<close> still to
  run; the index itself is only printed. The model is the function with
  \<^verbatim>\<open>verbose=False\<close>, its default; with the other setting the loop also prints
  the index, the value of \<open>f\<close> and the first two entries of the iterate.
  \<open>iterate_record\<close> holds the addresses of the clones.
\<close>

fun minimize_loop ::
  "'a torch_ops \<Rightarrow> 'a objective \<Rightarrow> addr \<Rightarrow> nat \<Rightarrow> ('a, 's) optimizer \<Rightarrow> 'a heap \<Rightarrow> addr list
     \<Rightarrow> error + (('a, 's) optimizer \<times> 'a heap \<times> addr list)" where
  "minimize_loop ops f it 0 opt h iterate_record = Inr (opt, h, iterate_record)"
| "minimize_loop ops f it (Suc n) opt h iterate_record =
     (case optimizer_zero_grad ops opt h of
        Inl e \<Rightarrow> Inl e
      | Inr (opt1, h1) \<Rightarrow>
     (case backward ops f it h1 of
        Inl e \<Rightarrow> Inl e
      | Inr h2 \<Rightarrow>
     (case grad (h2 ! it) of
        None \<Rightarrow> Inl TypeError
      | Some g \<Rightarrow>
          if pyfloat_less (sum_sq ops g) threshold then Inr (opt1, h2, iterate_record)
          else
            (case alloc (clone (h2 ! it)) h2 of (a, h3) \<Rightarrow>
            (case optimizer_step ops opt1 h3 of
               Inl e \<Rightarrow> Inl e
             | Inr (opt2, h4) \<Rightarrow>
                 minimize_loop ops f it n opt2 h4 (iterate_record @ [a]))))))"

text \<open>
  \<^verbatim>\<open>torch.cat(iterate_record, dim=0)\<close>: the rows of the recorded clones, one above
  the other, in a new tensor; the library raises \<^verbatim>\<open>RuntimeError\<close> on an empty
  list.
\<close>

definition cat :: "addr list \<Rightarrow> 'a heap \<Rightarrow> error + 'a list list" where
  "cat as h = (if as = [] then Inl RuntimeError else Inr (map (\<lambda>a. data (h ! a)) as))"

text \<open>
  \<open>minimize\<close> returns the trajectory; the model returns with it the optimizer and the
  store as the call leaves them. \<^verbatim>\<open>range(max_iter)\<close> is empty for a negative
  \<^verbatim>\<open>max_iter\<close>.
\<close>

definition minimize ::
  "'a torch_ops \<Rightarrow> 'a objective \<Rightarrow> ('a, 's) optimizer \<Rightarrow> int \<Rightarrow> 'a heap
     \<Rightarrow> error + ('a list list \<times> ('a, 's) optimizer \<times> 'a heap)" where
  "minimize ops f optimizer max_iter h =
     (case get_iterate optimizer of
        Inl e \<Rightarrow> Inl e
      | Inr iterate \<Rightarrow>
     (case minimize_loop ops f iterate (nat max_iter) optimizer h [] of
        Inl e \<Rightarrow> Inl e
      | Inr (opt', h', iterate_record) \<Rightarrow>
     (case cat iterate_record h' of
        Inl e \<Rightarrow> Inl e
      | Inr rows \<Rightarrow> Inr (rows, opt', h'))))"

section \<open>The Gaussian modules\<close>

text \<open>
  The arguments of the modules are tensors of any shape: a scalar, a vector or a
  matrix given by its rows (all of one length). \<open>shape\<close> is \<^verbatim>\<open>t.shape\<close>.
  In this part the entries are real numbers and the arithmetic is exact: the rounding
  of the library's floats is not modelled here.
\<close>

datatype ndtensor = Scalar real | Vec "real list" | Mat "real list list"

fun shape :: "ndtensor \<Rightarrow> nat list" where
  "shape (Scalar s) = []"
| "shape (Vec v) = [length v]"
| "shape (Mat []) = [0, 0]"
| "shape (Mat (r # rs)) = [Suc (length rs), length r]"

text \<open>
  \<^verbatim>\<open>
  class Gaussian(nn.Module):
      def __init__(self, precision, mean):
          super(Gaussian, self).__init__()
          assert precision.shape == (2, 2)
          assert mean.shape == (2,)
          self.precision = Parameter(precision, requires_grad=False)
          self.mean = Parameter(mean, requires_grad=False)
  \<close>
\<close>

record Gaussian =
  precision :: "real list list"
  mean :: "real list"

fun Gaussian_init :: "ndtensor \<Rightarrow> ndtensor \<Rightarrow> error + Gaussian" where
  "Gaussian_init (Mat p) (Vec m) =
     (if shape (Mat p) \<noteq> [2, 2] then Inl AssertionError
      else if shape (Vec m) \<noteq> [2] then Inl AssertionError
      else Inr \<lparr>precision = p, mean = m\<rparr>)"
| "Gaussian_init _ _ = Inl AssertionError"

text \<open>
  The library's elementwise operations broadcast: of two vectors of different lengths,
  one of length one is repeated, and any other pair raises \<^verbatim>\<open>RuntimeError\<close>.
\<close>

definition broadcast2 ::
  "(real \<Rightarrow> real \<Rightarrow> real) \<Rightarrow> real list \<Rightarrow> real list \<Rightarrow> error + real list" where
  "broadcast2 f u v =
     (if length u = length v then Inr (map2 f u v)
      else if length u = 1 then Inr (map (\<lambda>b. f (hd u) b) v)
      else if length v = 1 then Inr (map (\<lambda>a. f a (hd v)) u)
      else Inl RuntimeError)"

fun collect :: "(error + 'a) list \<Rightarrow> error + 'a list" where
  "collect [] = Inr []"
| "collect (Inl e # rs) = Inl e"
| "collect (Inr a # rs) = (case collect rs of Inl e \<Rightarrow> Inl e | Inr as \<Rightarrow> Inr (a # as))"

text \<open>\<^verbatim>\<open>xc = x - self.mean\<close>, then the reshaping of a vector to a batch of one row.\<close>

fun centered_rows :: "ndtensor \<Rightarrow> real list \<Rightarrow> error + real list list" where
  "centered_rows (Scalar s) m = Inr [map (\<lambda>b. s - b) m]"
| "centered_rows (Vec v) m =
     (case broadcast2 (-) v m of Inl e \<Rightarrow> Inl e | Inr xc \<Rightarrow> Inr [xc])"
| "centered_rows (Mat rows) m = collect (map (\<lambda>r. broadcast2 (-) r m) rows)"

text \<open>
  One row of \<^verbatim>\<open>xc @ self.precision\<close>: the row times each column of the matrix; the
  library raises \<^verbatim>\<open>RuntimeError\<close> when the row's length is not the number of rows of
  the matrix.
\<close>

definition row_matmul :: "real list \<Rightarrow> real list list \<Rightarrow> error + real list" where
  "row_matmul r p =
     (if length r \<noteq> length p then Inl RuntimeError
      else Inr (map (\<lambda>col. sum_list (map2 (*) r col)) (transpose p)))"

text \<open>
  \<^verbatim>\<open>
      def forward(self, x):
          xc = x - self.mean
          if len(xc.shape) == 1:
              xc = xc.view(1, -1)
          return torch.exp(-.5 * (torch.sum((xc @ self.precision) * xc, dim=1)))
  \<close>
  The result is a vector with one entry for each row of \<open>xc\<close>.
\<close>

definition Gaussian_row :: "Gaussian \<Rightarrow> real list \<Rightarrow> error + real" where
  "Gaussian_row self xc =
     (case row_matmul xc (precision self) of
        Inl e \<Rightarrow> Inl e
      | Inr y \<Rightarrow>
          (case broadcast2 (*) y xc of
             Inl e \<Rightarrow> Inl e
           | Inr z \<Rightarrow> Inr (exp (- (1 / 2) * sum_list z))))"

definition Gaussian_forward :: "Gaussian \<Rightarrow> ndtensor \<Rightarrow> error + real list" where
  "Gaussian_forward self x =
     (case centered_rows x (mean self) of
        Inl e \<Rightarrow> Inl e
      | Inr xc \<Rightarrow> collect (map (Gaussian_row self) xc))"

text \<open>
  \<^verbatim>\<open>
  class GaussianCombination(nn.Module):
      def __init__(self, precisions, means, weights):
          super(GaussianCombination, self).__init__()
          assert len(precisions) == len(means) == len(weights)
          self.gaussians = nn.ModuleList()
          for precision, mean in zip(precisions, means):
              self.gaussians.append(Gaussian(precision, mean))
          self.weights = weights
      def forward(self, x):
          return sum(w * g(x) for g, w in zip(self.gaussians, self.weights))
  \<close>
\<close>

record GaussianCombination =
  gaussians :: "Gaussian list"
  weights :: "real list"

definition GaussianCombination_init ::
  "ndtensor list \<Rightarrow> ndtensor list \<Rightarrow> real list \<Rightarrow> error + GaussianCombination" where
  "GaussianCombination_init precisions means ws =
     (if \<not> (length precisions = length means \<and> length means = length ws)
      then Inl AssertionError
      else
        (case collect (map (\<lambda>(p, m). Gaussian_init p m) (zip precisions means)) of
           Inl e \<Rightarrow> Inl e
         | Inr gs \<Rightarrow> Inr \<lparr>gaussians = gs, weights = ws\<rparr>))"

text \<open>
  \<^verbatim>\<open>sum\<close> starts from the integer \<open>0\<close> and adds the terms from the left; a number
  plus a vector is the vector with the number added to each entry.
\<close>

fun add_nd :: "ndtensor \<Rightarrow> real list \<Rightarrow> error + ndtensor" where
  "add_nd (Scalar s) v = Inr (Vec (map (\<lambda>b. s + b) v))"
| "add_nd (Vec u) v = (case broadcast2 (+) u v of Inl e \<Rightarrow> Inl e | Inr r \<Rightarrow> Inr (Vec r))"
| "add_nd (Mat rows) v =
     (case collect (map (\<lambda>r. broadcast2 (+) r v) rows) of
        Inl e \<Rightarrow> Inl e
      | Inr rs \<Rightarrow> Inr (Mat rs))"

fun sum_terms :: "ndtensor \<Rightarrow> (Gaussian \<times> real) list \<Rightarrow> ndtensor \<Rightarrow> error + ndtensor" where
  "sum_terms acc [] x = Inr acc"
| "sum_terms acc ((g, w) # gws) x =
     (case Gaussian_forward g x of
        Inl e \<Rightarrow> Inl e
      | Inr y \<Rightarrow>
          (case add_nd acc (map (\<lambda>b. w * b) y) of
             Inl e \<Rightarrow> Inl e
           | Inr acc' \<Rightarrow> sum_terms acc' gws x))"

definition GaussianCombination_forward :: "GaussianCombination \<Rightarrow> ndtensor \<Rightarrow> error + ndtensor" where
  "GaussianCombination_forward self x =
     sum_terms (Scalar 0) (zip (gaussians self) (weights self)) x"

text \<open>
  The quadratic form \<open>v\<^sup>T P v\<close> of a vector and a square matrix, written as the double
  sum over the entries.
\<close>

definition quad_form :: "real list list \<Rightarrow> real list \<Rightarrow> real" where
  "quad_form p v = (\<Sum>i<length v. \<Sum>j<length v. v ! i * (p ! i ! j) * v ! j)"

text \<open>
  The objective of the notebook:
  \<^verbatim>\<open>
  p1 = torch.tensor([[1, 0], [0, 4]], dtype=torch.float32)
  m1 = torch.tensor([0, 1], dtype=torch.float)
  w1 = 1
  p2 = torch.tensor([[1, -2], [-2, 10]], dtype=torch.float32)
  m2 = torch.tensor([0, -2], dtype=torch.float32)
  w2 = -1
  f = GaussianCombination([p1, p2], [m1, m2], [w1, w2])
  \<close>
\<close>

definition p1 :: "real list list" where "p1 = [[1, 0], [0, 4]]"
definition m1 :: "real list" where "m1 = [0, 1]"
definition p2 :: "real list list" where "p2 = [[1, - 2], [- 2, 10]]"
definition m2 :: "real list" where "m2 = [0, - 2]"

definition notebook_f :: "error + GaussianCombination" where
  "notebook_f = GaussianCombination_init [Mat p1, Mat p2] [Vec m1, Vec m2] [1, - 1]"

section \<open>Notions used to state the properties\<close>

text \<open>
  The library keeps a gradient accumulator of the shape of its tensor; \<open>grad_ok\<close> says
  so of a stored tensor.
\<close>

definition grad_ok :: "'a tensor \<Rightarrow> bool" where
  "grad_ok t = (case grad t of None \<Rightarrow> True | Some g \<Rightarrow> length g = length (data t))"

text \<open>
  An objective whose evaluation and differentiation never raise is given by its
  gradient function.
\<close>

definition objective_of :: "('a list \<Rightarrow> 'a list) \<Rightarrow> 'a objective" where
  "objective_of gradf = (\<lambda>x. Inr (gradf x))"

text \<open>
  The two halves of the loop body of \<open>minimize\<close>, built from the same calls.
  \<open>compute_grad\<close> is \<^verbatim>\<open>optimizer.zero_grad(); value = f(iterate); value.backward()\<close>
  followed by the reading of \<^verbatim>\<open>iterate.grad\<close>: it gives the optimizer, the store and
  the gradient on which the loop takes its decision. \<open>record_step\<close> is
  \<^verbatim>\<open>iterate_record.append(iterate.data.clone()[None, :]); optimizer.step()\<close>.
\<close>

definition compute_grad ::
  "'a torch_ops \<Rightarrow> 'a objective \<Rightarrow> addr \<Rightarrow> ('a, 's) optimizer \<Rightarrow> 'a heap
     \<Rightarrow> error + (('a, 's) optimizer \<times> 'a heap \<times> 'a list)" where
  "compute_grad ops f it opt h =
     (case optimizer_zero_grad ops opt h of
        Inl e \<Rightarrow> Inl e
      | Inr (opt1, h1) \<Rightarrow>
     (case backward ops f it h1 of
        Inl e \<Rightarrow> Inl e
      | Inr h2 \<Rightarrow>
     (case grad (h2 ! it) of
        None \<Rightarrow> Inl TypeError
      | Some g \<Rightarrow> Inr (opt1, h2, g))))"

definition record_step ::
  "'a torch_ops \<Rightarrow> addr \<Rightarrow> ('a, 's) optimizer \<Rightarrow> 'a heap
     \<Rightarrow> error + (('a, 's) optimizer \<times> 'a heap)" where
  "record_step ops it opt h = optimizer_step ops opt (h @ [clone (h ! it)])"

text \<open>
  \<open>pass_state ops f it j opt h\<close> is the optimizer and the store after \<open>j\<close> passes of
  the loop body, each run to its end whatever its gradient: the state in which pass
  number \<open>j\<close> (from 0) of the loop starts, if the loop gets there.
\<close>

fun pass_state ::
  "'a torch_ops \<Rightarrow> 'a objective \<Rightarrow> addr \<Rightarrow> nat \<Rightarrow> ('a, 's) optimizer \<Rightarrow> 'a heap
     \<Rightarrow> error + (('a, 's) optimizer \<times> 'a heap)" where
  "pass_state ops f it 0 opt h = Inr (opt, h)"
| "pass_state ops f it (Suc j) opt h =
     (case compute_grad ops f it opt h of
        Inl e \<Rightarrow> Inl e
      | Inr (opt1, h2, g) \<Rightarrow>
     (case record_step ops it opt1 h2 of
        Inl e \<Rightarrow> Inl e
      | Inr (opt2, h4) \<Rightarrow> pass_state ops f it j opt2 h4))"

text \<open>
  \<open>pass_grad ops f it j opt h\<close> is the optimizer, the store and the gradient right
  after the gradient computation of pass number \<open>j\<close>: what the loop has before it
  when it decides whether to break in that pass, and the store from which it clones
  the iterate, before the optimizer step of that pass, when it does not break.
\<close>

definition pass_grad ::
  "'a torch_ops \<Rightarrow> 'a objective \<Rightarrow> addr \<Rightarrow> nat \<Rightarrow> ('a, 's) optimizer \<Rightarrow> 'a heap
     \<Rightarrow> error + (('a, 's) optimizer \<times> 'a heap \<times> 'a list)" where
  "pass_grad ops f it j opt h =
     (case pass_state ops f it j opt h of
        Inl e \<Rightarrow> Inl e
      | Inr (opt1, h1) \<Rightarrow> compute_grad ops f it opt1 h1)"

text \<open>The default of the parameter \<^verbatim>\<open>max_iter\<close> of \<open>minimize\<close>.\<close>

definition default_max_iter :: int where
  "default_max_iter = 500"

text \<open>
  The momentum rule as the notebook describes it for \<open>MomentumGradientDescent.step\<close>,
  on one parameter with value \<open>x\<close>, velocity \<open>v\<close> and gradient \<open>g\<close>: the new
  velocity is \<open>\<mu> v + g\<close> and the new value is \<open>x - lr v\<close> for the new velocity.
  The result is the pair of the new value and the new velocity.
\<close>

definition momentum_rule ::
  "real \<Rightarrow> real \<Rightarrow> real list \<Rightarrow> real list \<Rightarrow> real list \<Rightarrow> real list \<times> real list" where
  "momentum_rule l mu x v g =
     (let v' = map2 (\<lambda>vi gi. mu * vi + gi) v g
      in (map2 (\<lambda>xi vi. xi - l * vi) x v', v'))"

text \<open>
  Exact arithmetic on real numbers, for concrete runs: it is the arithmetic of the
  library wherever the library's results need no rounding.
\<close>

definition real_ops :: "real torch_ops" where
  "real_ops = \<lparr>zeros = 0, iadd = (+), isub = (-), smul = (*),
     sum_sq = (\<lambda>g. Finite (sum_list (map (\<lambda>v. v ^ 2) g)))\<rparr>"

text \<open>
  A gradient function for concrete runs: the gradient \<open>2 x\<close> of the sum of squares of
  the entries of \<open>x\<close>.
\<close>

definition quad_grad :: "real list \<Rightarrow> real list" where
  "quad_grad x = map (\<lambda>v. 2 * v) x"

section \<open>Lemmas about the store and the optimizers\<close>

lemma length_zero_grad_params: "length (zero_grad_params ops ps h) = length h"
  by (induction ps arbitrary: h) (auto split: option.splits)

lemma nth_zero_grad_params:
  "a < length h \<Longrightarrow>
   zero_grad_params ops ps h ! a =
     (if a \<in> set ps
      then (h ! a)\<lparr>grad := map_option (map (\<lambda>_. zeros ops)) (grad (h ! a))\<rparr>
      else h ! a)"
proof (induction ps arbitrary: h)
  case Nil
  then show ?case by simp
next
  case (Cons p ps)
  let ?h1 = "case grad (h ! p) of None \<Rightarrow> h
        | Some g \<Rightarrow> h[p := (h ! p)\<lparr>grad := Some (map (\<lambda>_. zeros ops) g)\<rparr>]"
  have len: "a < length ?h1" using Cons.prems by (simp split: option.splits)
  have h1: "?h1 ! a =
      (if a = p then (h ! a)\<lparr>grad := map_option (map (\<lambda>_. zeros ops)) (grad (h ! a))\<rparr>
       else h ! a)"
    using Cons.prems by (auto split: option.splits simp: nth_list_update)
  show ?case
    unfolding zero_grad_params.simps Cons.IH[OF len] h1
    by (auto simp: option.map_comp comp_def)
qed

lemma zero_grad_single_frame:
  "length (zero_grad_params ops [it] h) = length h \<and>
   (\<forall>a. a \<noteq> it \<longrightarrow> zero_grad_params ops [it] h ! a = h ! a) \<and>
   (it < length h \<longrightarrow> data (zero_grad_params ops [it] h ! it) = data (h ! it))"
  by (auto split: option.splits)

lemma step_params_distinct:
  "distinct ps \<Longrightarrow> \<forall>p\<in>set ps. p < length h \<and> grad (h ! p) \<noteq> None \<Longrightarrow>
   \<exists>h'. step_params ops l ps h = Inr h' \<and> length h' = length h \<and>
     (\<forall>a<length h. h' ! a =
        (if a \<in> set ps
         then (h ! a)\<lparr>data := isub_scaled ops l (data (h ! a)) (the (grad (h ! a)))\<rparr>
         else h ! a))"
proof (induction ps arbitrary: h)
  case Nil
  then show ?case by simp
next
  case (Cons p ps)
  from Cons.prems obtain g where g: "grad (h ! p) = Some g" and p: "p < length h" by auto
  let ?h1 = "h[p := (h ! p)\<lparr>data := isub_scaled ops l (data (h ! p)) g\<rparr>]"
  have pre: "\<forall>q\<in>set ps. q < length ?h1 \<and> grad (?h1 ! q) \<noteq> None"
    using Cons.prems by (auto simp: nth_list_update)
  from Cons.prems have d: "distinct ps" "p \<notin> set ps" by auto
  from Cons.IH[OF d(1) pre] obtain h' where
    h': "step_params ops l ps ?h1 = Inr h'" "length h' = length ?h1"
      "\<forall>a<length ?h1. h' ! a =
        (if a \<in> set ps
         then (?h1 ! a)\<lparr>data := isub_scaled ops l (data (?h1 ! a)) (the (grad (?h1 ! a)))\<rparr>
         else ?h1 ! a)" by blast
  have "step_params ops l (p # ps) h = Inr h'" using g h'(1) by simp
  moreover have "length h' = length h" using h'(2) by simp
  moreover have "\<forall>a<length h. h' ! a =
        (if a \<in> set (p # ps)
         then (h ! a)\<lparr>data := isub_scaled ops l (data (h ! a)) (the (grad (h ! a)))\<rparr>
         else h ! a)"
    using h'(3) d(2) g p by (auto simp: nth_list_update)
  ultimately show ?case by blast
qed

lemma grad_data_update: "grad (h[p := (h ! p)\<lparr>data := d\<rparr>] ! q) = grad (h ! q)"
  by (cases "p < length h") (auto simp: nth_list_update list_update_beyond)

text \<open>
  A parameter without a gradient makes \<open>step\<close> raise: the updates before it change data
  only.
\<close>

lemma step_params_no_grad:
  "\<exists>p\<in>set ps. grad (h ! p) = None \<Longrightarrow> step_params ops l ps h = Inl TypeError"
proof (induction ps arbitrary: h)
  case Nil
  then show ?case by simp
next
  case (Cons p ps)
  show ?case
  proof (cases "grad (h ! p)")
    case None
    then show ?thesis by simp
  next
    case (Some g)
    with Cons.prems have "\<exists>q\<in>set ps. grad (h ! q) = None" by auto
    then have "\<exists>q\<in>set ps.
        grad (h[p := (h ! p)\<lparr>data := isub_scaled ops l (data (h ! p)) g\<rparr>] ! q) = None"
      by (simp add: grad_data_update)
    from Cons.IH[OF this] Some show ?thesis by simp
  qed
qed

lemma unpack_single_Inr: "unpack_single ps = Inr a \<longleftrightarrow> ps = [a]"
  by (cases ps rule: unpack_single.cases) auto

lemma unpack_single_eq:
  "unpack_single ps = (if length ps = 1 then Inr (hd ps) else Inl ValueError)"
  by (cases ps rule: unpack_single.cases) auto

lemma length_isub_scaled:
  "length g = length x \<Longrightarrow> length (isub_scaled ops l x g) = length x"
  by (simp add: isub_scaled_def)

lemma length_write_back: "length (write_back ps ts h) = length h"
  by (induction ps ts h rule: write_back.induct) simp_all

lemma nth_write_back: "a \<notin> set ps \<Longrightarrow> write_back ps ts h ! a = h ! a"
  by (induction ps ts h rule: write_back.induct) (auto simp: nth_list_update)

lemma backward_frame:
  assumes "backward ops f it h = Inr h2"
  shows "length h2 = length h \<and> (\<forall>a. a \<noteq> it \<longrightarrow> h2 ! a = h ! a) \<and>
    (it < length h \<longrightarrow> data (h2 ! it) = data (h ! it))"
  using assms by (auto simp: backward_def split: sum.splits if_splits)

text \<open>
  The optimizer that \<open>minimize\<close> accepts holds the iterate and nothing else, and its
  two methods keep that, keep the size of the store and change no other tensor.
\<close>

lemma get_iterate_Torch:
  "get_iterate (Torch t) = Inr it \<longleftrightarrow> param_groups t = [[it]]"
proof (cases "param_groups t")
  case Nil
  then show ?thesis by simp
next
  case (Cons ps pss)
  then show ?thesis by (cases pss) (auto simp: unpack_single_Inr)
qed

lemma step_params_single_frame:
  assumes "step_params ops l [it] h = Inr h'"
  shows "length h' = length h \<and> (\<forall>a. a \<noteq> it \<longrightarrow> h' ! a = h ! a)"
  using assms by (auto split: option.splits)

lemma torch_call_frame:
  assumes "param_groups t = [[it]]" "torch_call method t h = Inr (opt', h')"
  shows "get_iterate opt' = Inr it \<and> \<not> hasattr_params opt' \<and> length h' = length h \<and>
    (\<forall>a. a \<noteq> it \<longrightarrow> h' ! a = h ! a)"
  using assms
  by (auto simp: torch_call_def length_write_back nth_write_back split: sum.splits)

lemma optimizer_zero_grad_frame:
  assumes "get_iterate opt = Inr it" "optimizer_zero_grad ops opt h = Inr (opt', h')"
  shows "get_iterate opt' = Inr it \<and> hasattr_params opt' = hasattr_params opt \<and>
    length h' = length h \<and> (\<forall>a. a \<noteq> it \<longrightarrow> h' ! a = h ! a)"
proof (cases opt)
  case (Gd g)
  with assms show ?thesis
    using zero_grad_single_frame[of ops it h]
    by (auto simp: GradientDescent_zero_grad_def unpack_single_Inr
        simp del: zero_grad_params.simps)
next
  case (Mgd m)
  with assms show ?thesis
    using zero_grad_single_frame[of ops it h]
    by (auto simp: GradientDescent_zero_grad_def unpack_single_Inr
        simp del: zero_grad_params.simps)
next
  case (Torch t)
  with assms(1) have "get_iterate (Torch t) = Inr it" by blast
  then have "param_groups t = [[it]]" by (simp only: get_iterate_Torch)
  from torch_call_frame[OF this] assms(2) Torch show ?thesis by auto
qed

lemma optimizer_step_frame:
  assumes "get_iterate opt = Inr it" "optimizer_step ops opt h = Inr (opt', h')"
  shows "get_iterate opt' = Inr it \<and> hasattr_params opt' = hasattr_params opt \<and>
    length h' = length h \<and> (\<forall>a. a \<noteq> it \<longrightarrow> h' ! a = h ! a)"
proof (cases opt)
  case (Gd g)
  with assms obtain h1 where "step_params ops (lr g) [it] h = Inr h1" "h' = h1" "opt' = Gd g"
    by (auto simp: GradientDescent_step_def unpack_single_Inr split: sum.splits
        simp del: step_params.simps)
  with step_params_single_frame[of ops "lr g" it h h1] Gd assms(1) show ?thesis by auto
next
  case (Mgd m)
  with assms show ?thesis by (auto simp: MomentumGradientDescent_step_def)
next
  case (Torch t)
  with assms(1) have "get_iterate (Torch t) = Inr it" by blast
  then have "param_groups t = [[it]]" by (simp only: get_iterate_Torch)
  from torch_call_frame[OF this] assms(2) Torch show ?thesis by auto
qed

lemma compute_grad_frame:
  assumes "get_iterate opt = Inr it" "compute_grad ops f it opt h = Inr (opt', h', g)"
  shows "get_iterate opt' = Inr it \<and> hasattr_params opt' = hasattr_params opt \<and>
    length h' = length h \<and> (\<forall>a. a \<noteq> it \<longrightarrow> h' ! a = h ! a) \<and> grad (h' ! it) = Some g"
proof -
  from assms(2) obtain opt1 h1 where
    zg: "optimizer_zero_grad ops opt h = Inr (opt1, h1)"
    and bw: "backward ops f it h1 = Inr h'" and o: "opt' = opt1"
    and g: "grad (h' ! it) = Some g"
    by (auto simp: compute_grad_def split: sum.splits option.splits)
  from optimizer_zero_grad_frame[OF assms(1) zg] backward_frame[OF bw] o g
  show ?thesis by auto
qed

lemma record_step_frame:
  assumes "get_iterate opt = Inr it" "it < length h"
    "record_step ops it opt h = Inr (opt', h')"
  shows "get_iterate opt' = Inr it \<and> hasattr_params opt' = hasattr_params opt \<and>
    length h' = Suc (length h) \<and> (\<forall>a<length h. a \<noteq> it \<longrightarrow> h' ! a = h ! a) \<and>
    h' ! length h = clone (h ! it)"
proof -
  from assms(3) have "optimizer_step ops opt (h @ [clone (h ! it)]) = Inr (opt', h')"
    by (simp add: record_step_def)
  from optimizer_step_frame[OF assms(1) this] assms(2)
  show ?thesis by (auto simp: nth_append)
qed

section \<open>Lemmas about the loop of \<open>minimize\<close>\<close>

lemma minimize_loop_Suc:
  "minimize_loop ops f it (Suc n) opt h r =
     (case compute_grad ops f it opt h of
        Inl e \<Rightarrow> Inl e
      | Inr (opt1, h2, g) \<Rightarrow>
          if pyfloat_less (sum_sq ops g) threshold then Inr (opt1, h2, r)
          else
            (case record_step ops it opt1 h2 of
               Inl e \<Rightarrow> Inl e
             | Inr (opt2, h4) \<Rightarrow> minimize_loop ops f it n opt2 h4 (r @ [length h2])))"
  by (simp add: compute_grad_def record_step_def alloc_def
      split: sum.splits option.splits prod.splits)

lemma pass_grad_0: "pass_grad ops f it 0 opt h = compute_grad ops f it opt h"
  by (simp add: pass_grad_def)

lemma pass_grad_Suc:
  "compute_grad ops f it opt h = Inr (opt1, h2, g) \<Longrightarrow>
   record_step ops it opt1 h2 = Inr (opt2, h4) \<Longrightarrow>
   pass_grad ops f it (Suc j) opt h = pass_grad ops f it j opt2 h4"
  by (simp add: pass_grad_def)

lemma pass_state_Suc:
  "compute_grad ops f it opt h = Inr (opt1, h2, g) \<Longrightarrow>
   record_step ops it opt1 h2 = Inr (opt2, h4) \<Longrightarrow>
   pass_state ops f it (Suc j) opt h = pass_state ops f it j opt2 h4"
  by simp

text \<open>
  For any operations, objective, optimizer and store: a loop that returns has completed
  \<open>k\<close> passes, none of them with a gradient below the threshold, and either it broke
  in pass \<open>k\<close>, on a gradient below the threshold, or \<open>k\<close> is the whole budget.
\<close>

lemma minimize_loop_trace:
  "minimize_loop ops f it n opt h r = Inr (opt', h', r') \<Longrightarrow>
   \<exists>k\<le>n. length r' = length r + k \<and>
     (\<forall>j<k. \<exists>o2 h2 g. pass_grad ops f it j opt h = Inr (o2, h2, g) \<and>
        \<not> pyfloat_less (sum_sq ops g) threshold) \<and>
     (k < n \<longrightarrow> (\<exists>g. pass_grad ops f it k opt h = Inr (opt', h', g) \<and>
        pyfloat_less (sum_sq ops g) threshold)) \<and>
     (k = n \<longrightarrow> pass_state ops f it n opt h = Inr (opt', h'))"
proof (induction n arbitrary: opt h r)
  case 0
  then show ?case by simp
next
  case (Suc n)
  from Suc.prems obtain opt1 h2 g where
    cg: "compute_grad ops f it opt h = Inr (opt1, h2, g)"
    unfolding minimize_loop_Suc by (auto split: sum.splits)
  show ?case
  proof (cases "pyfloat_less (sum_sq ops g) threshold")
    case True
    with Suc.prems cg have "opt' = opt1" "h' = h2" "r' = r"
      unfolding minimize_loop_Suc by simp_all
    with cg True show ?thesis
      by (intro exI[of _ 0]) (simp add: pass_grad_0)
  next
    case False
    with Suc.prems cg obtain opt2 h4 where
      rs: "record_step ops it opt1 h2 = Inr (opt2, h4)"
      and run: "minimize_loop ops f it n opt2 h4 (r @ [length h2]) = Inr (opt', h', r')"
      unfolding minimize_loop_Suc by (auto split: sum.splits)
    from Suc.IH[OF run] obtain k where k: "k \<le> n" "length r' = length (r @ [length h2]) + k"
      and nb: "\<forall>j<k. \<exists>o2 h2 g. pass_grad ops f it j opt2 h4 = Inr (o2, h2, g) \<and>
        \<not> pyfloat_less (sum_sq ops g) threshold"
      and br: "k < n \<longrightarrow> (\<exists>g. pass_grad ops f it k opt2 h4 = Inr (opt', h', g) \<and>
        pyfloat_less (sum_sq ops g) threshold)"
      and full: "k = n \<longrightarrow> pass_state ops f it n opt2 h4 = Inr (opt', h')"
      by blast
    have nb': "\<forall>j<Suc k. \<exists>o2 h2 g. pass_grad ops f it j opt h = Inr (o2, h2, g) \<and>
        \<not> pyfloat_less (sum_sq ops g) threshold"
    proof (intro allI impI)
      fix j assume j: "j < Suc k"
      show "\<exists>o2 h2 g. pass_grad ops f it j opt h = Inr (o2, h2, g) \<and>
        \<not> pyfloat_less (sum_sq ops g) threshold"
      proof (cases j)
        case 0
        with cg False show ?thesis by (auto simp: pass_grad_0)
      next
        case (Suc j')
        with j nb show ?thesis by (simp add: pass_grad_Suc[OF cg rs])
      qed
    qed
    show ?thesis
      apply (rule exI[of _ "Suc k"])
      using k nb' br full
      by (simp add: pass_grad_Suc[OF cg rs] pass_state_Suc[OF cg rs] del: pass_state.simps)
  qed
qed

text \<open>An exception leaves the loop only from a call of one of its passes.\<close>

lemma minimize_loop_raises:
  "minimize_loop ops f it n opt h r = Inl e \<Longrightarrow>
   \<exists>j<n. pass_grad ops f it j opt h = Inl e \<or> pass_state ops f it (Suc j) opt h = Inl e"
proof (induction n arbitrary: opt h r)
  case 0
  then show ?case by simp
next
  case (Suc n)
  show ?case
  proof (cases "compute_grad ops f it opt h")
    case (Inl e')
    with Suc.prems have "e' = e" unfolding minimize_loop_Suc by simp
    with Inl show ?thesis by (intro exI[of _ 0]) (simp add: pass_grad_0)
  next
    case (Inr s)
    then obtain opt1 h2 g where cg: "compute_grad ops f it opt h = Inr (opt1, h2, g)"
      by (cases s) auto
    show ?thesis
    proof (cases "record_step ops it opt1 h2")
      case (Inl e')
      with Suc.prems cg have "e' = e"
        unfolding minimize_loop_Suc by (simp split: if_splits)
      with Inl cg show ?thesis by (intro exI[of _ 0]) simp
    next
      case (Inr s2)
      then obtain opt2 h4 where rs: "record_step ops it opt1 h2 = Inr (opt2, h4)"
        by (cases s2) auto
      with Suc.prems cg have
        "minimize_loop ops f it n opt2 h4 (r @ [length h2]) = Inl e"
        unfolding minimize_loop_Suc by (simp split: if_splits)
      from Suc.IH[OF this] obtain j where "j < n"
        "pass_grad ops f it j opt2 h4 = Inl e \<or> pass_state ops f it (Suc j) opt2 h4 = Inl e"
        by blast
      then show ?thesis
        by (intro exI[of _ "Suc j"])
          (simp add: pass_grad_Suc[OF cg rs] pass_state_Suc[OF cg rs] del: pass_state.simps)
    qed
  qed
qed

text \<open>
  The clones: for an optimizer that holds the iterate, the loop appends the addresses
  from the end of the store on, and the clone of pass \<open>i\<close> still holds, when the loop
  returns, the data that the iterate had after the gradient computation of that pass.
\<close>

lemma minimize_loop_clones:
  "get_iterate opt = Inr it \<Longrightarrow> it < length h \<Longrightarrow>
   minimize_loop ops f it n opt h r = Inr (opt', h', r') \<Longrightarrow>
   \<exists>k. r' = r @ [length h ..< length h + k] \<and> length h' = length h + k \<and>
     get_iterate opt' = Inr it \<and>
     (\<forall>i<k. \<exists>o2 h2 g. pass_grad ops f it i opt h = Inr (o2, h2, g) \<and>
        data (h' ! (length h + i)) = data (h2 ! it)) \<and>
     (\<forall>a<length h. a \<noteq> it \<longrightarrow> h' ! a = h ! a)"
proof (induction n arbitrary: opt h r)
  case 0
  then show ?case by simp
next
  case (Suc n)
  from Suc.prems(3) obtain opt1 h2 g where
    cg: "compute_grad ops f it opt h = Inr (opt1, h2, g)"
    unfolding minimize_loop_Suc by (auto split: sum.splits)
  from compute_grad_frame[OF Suc.prems(1) cg] have
    f2: "get_iterate opt1 = Inr it" "length h2 = length h" "\<forall>a. a \<noteq> it \<longrightarrow> h2 ! a = h ! a"
    by simp_all
  show ?case
  proof (cases "pyfloat_less (sum_sq ops g) threshold")
    case True
    with Suc.prems(3) cg have "opt' = opt1" "h' = h2" "r' = r"
      unfolding minimize_loop_Suc by simp_all
    with f2 show ?thesis by (intro exI[of _ 0]) simp
  next
    case False
    with Suc.prems(3) cg obtain opt2 h4 where
      rs: "record_step ops it opt1 h2 = Inr (opt2, h4)"
      and run: "minimize_loop ops f it n opt2 h4 (r @ [length h2]) = Inr (opt', h', r')"
      unfolding minimize_loop_Suc by (auto split: sum.splits)
    have it2: "it < length h2" using Suc.prems(2) f2(2) by simp
    from record_step_frame[OF f2(1) it2 rs] have
      f4: "get_iterate opt2 = Inr it" "length h4 = Suc (length h)"
        "\<forall>a<length h. a \<noteq> it \<longrightarrow> h4 ! a = h2 ! a" "h4 ! length h = clone (h2 ! it)"
      using f2(2) by simp_all
    have it4: "it < length h4" using Suc.prems(2) f4(2) by simp
    from Suc.IH[OF f4(1) it4 run] obtain k where
      r': "r' = (r @ [length h2]) @ [length h4 ..< length h4 + k]"
      and len: "length h' = length h4 + k"
      and gi: "get_iterate opt' = Inr it"
      and rows: "\<forall>i<k. \<exists>o2 h2 g. pass_grad ops f it i opt2 h4 = Inr (o2, h2, g) \<and>
        data (h' ! (length h4 + i)) = data (h2 ! it)"
      and frame: "\<forall>a<length h4. a \<noteq> it \<longrightarrow> h' ! a = h4 ! a"
      by blast
    have upt: "r' = r @ [length h ..< length h + Suc k]"
      using r' f2(2) f4(2) by (simp add: upt_conv_Cons)
    have first: "data (h' ! length h) = data (h2 ! it)"
      using frame f4(2,4) Suc.prems(2) by (simp add: clone_def)
    have rows': "\<forall>i<Suc k. \<exists>o2 h2 g. pass_grad ops f it i opt h = Inr (o2, h2, g) \<and>
        data (h' ! (length h + i)) = data (h2 ! it)"
    proof (intro allI impI)
      fix i assume i: "i < Suc k"
      show "\<exists>o2 h2 g. pass_grad ops f it i opt h = Inr (o2, h2, g) \<and>
        data (h' ! (length h + i)) = data (h2 ! it)"
      proof (cases i)
        case 0
        with cg first show ?thesis by (auto simp: pass_grad_0)
      next
        case (Suc i')
        with i rows f4(2) show ?thesis by (simp add: pass_grad_Suc[OF cg rs])
      qed
    qed
    have frame': "\<forall>a<length h. a \<noteq> it \<longrightarrow> h' ! a = h ! a"
      using frame f4(2,3) f2(3) by simp
    show ?thesis
      apply (rule exI[of _ "Suc k"])
      using upt len gi rows' frame' f4(2) by simp
  qed
qed

text \<open>
  With an optimizer of the notebook and an objective that does not raise, no call of a
  pass raises, and the iterate keeps a gradient of its shape.
\<close>

lemma notebook_compute_grad:
  assumes "hasattr_params opt" "get_iterate opt = Inr it" "it < length h" "grad_ok (h ! it)"
    "\<forall>x. length (gradf x) = length x"
  shows "\<exists>h2 g. compute_grad ops (objective_of gradf) it opt h = Inr (opt, h2, g) \<and>
    it < length h2 \<and> grad_ok (h2 ! it) \<and> grad (h2 ! it) = Some g \<and>
    g = (case grad (h ! it) of
           None \<Rightarrow> gradf (data (h ! it))
         | Some g0 \<Rightarrow> map2 (iadd ops) (map (\<lambda>_. zeros ops) g0) (gradf (data (h ! it))))"
proof -
  let ?h1 = "zero_grad_params ops [it] h"
  have zg: "optimizer_zero_grad ops opt h = Inr (opt, ?h1)"
    using assms(1,2)
    by (cases opt) (auto simp: GradientDescent_zero_grad_def unpack_single_Inr)
  have l1: "length ?h1 = length h" "data (?h1 ! it) = data (h ! it)"
    using zero_grad_single_frame[of ops it h] assms(3) by simp_all
  have g1: "grad (?h1 ! it) = map_option (map (\<lambda>_. zeros ops)) (grad (h ! it))"
    using assms(3) by (auto split: option.splits)
  have ok1: "grad_ok (?h1 ! it)"
    using assms(3,4) by (auto simp: grad_ok_def split: option.splits)
  let ?x = "data (h ! it)"
  let ?g = "case grad (?h1 ! it) of None \<Rightarrow> gradf ?x | Some g0 \<Rightarrow> map2 (iadd ops) g0 (gradf ?x)"
  let ?h2 = "?h1[it := (?h1 ! it)\<lparr>grad := Some ?g\<rparr>]"
  have bw: "backward ops (objective_of gradf) it ?h1 = Inr ?h2"
    using assms(5) l1 by (simp add: backward_def objective_of_def del: zero_grad_params.simps)
  have lg: "length ?g = length ?x"
    using ok1 assms(5) l1(2)
    by (auto simp: grad_ok_def split: option.splits simp del: zero_grad_params.simps)
  have at2: "?h2 ! it = (?h1 ! it)\<lparr>grad := Some ?g\<rparr>"
    using assms(3) l1(1) by (simp del: zero_grad_params.simps)
  have "compute_grad ops (objective_of gradf) it opt h = Inr (opt, ?h2, ?g)"
    unfolding compute_grad_def zg using bw at2 by (simp del: zero_grad_params.simps)
  moreover have "it < length ?h2" using assms(3) l1(1) by (simp del: zero_grad_params.simps)
  moreover have "grad_ok (?h2 ! it)"
    unfolding at2 using lg l1(2) by (simp add: grad_ok_def del: zero_grad_params.simps)
  moreover have "grad (?h2 ! it) = Some ?g" unfolding at2 by simp
  moreover have "?g = (case grad (h ! it) of
           None \<Rightarrow> gradf ?x
         | Some g0 \<Rightarrow> map2 (iadd ops) (map (\<lambda>_. zeros ops) g0) (gradf ?x))"
    unfolding g1 by (simp split: option.splits)
  ultimately show ?thesis by blast
qed

lemma notebook_record_step:
  assumes "hasattr_params opt" "get_iterate opt = Inr it" "it < length h" "grad_ok (h ! it)"
    "grad (h ! it) = Some g"
  shows "\<exists>h4. record_step ops it opt h = Inr (opt, h4) \<and> it < length h4 \<and> grad_ok (h4 ! it)"
proof (cases opt)
  case (Gd gd)
  with assms(2) have p: "params gd = [it]" by (simp add: unpack_single_Inr)
  let ?h3 = "h @ [clone (h ! it)]"
  let ?h4 = "?h3[it := (?h3 ! it)\<lparr>data := isub_scaled ops (lr gd) (data (?h3 ! it)) g\<rparr>]"
  have g3: "grad (?h3 ! it) = Some g" using assms(3,5) by (simp add: nth_append)
  have "record_step ops it opt h = Inr (opt, ?h4)"
    using Gd p g3 by (simp add: record_step_def GradientDescent_step_def)
  moreover have "it < length ?h4" using assms(3) by simp
  moreover have "grad_ok (?h4 ! it)"
    using assms(3,4,5) by (simp add: nth_append grad_ok_def length_isub_scaled)
  ultimately show ?thesis by blast
next
  case (Mgd m)
  then show ?thesis
    using assms(3,4)
    by (simp add: record_step_def MomentumGradientDescent_step_def nth_append)
next
  case (Torch t)
  with assms(1) show ?thesis by simp
qed

lemma notebook_loop_returns:
  assumes "hasattr_params opt" "get_iterate opt = Inr it"
    "\<forall>x. length (gradf x) = length x"
  shows "it < length h \<Longrightarrow> grad_ok (h ! it) \<Longrightarrow>
    \<exists>h' r'. minimize_loop ops (objective_of gradf) it n opt h r = Inr (opt, h', r')"
proof (induction n arbitrary: h r)
  case 0
  then show ?case by simp
next
  case (Suc n)
  from notebook_compute_grad[OF assms(1,2) Suc.prems assms(3), of ops] obtain h2 g where
    cg: "compute_grad ops (objective_of gradf) it opt h = Inr (opt, h2, g)"
    and p2: "it < length h2" "grad_ok (h2 ! it)" "grad (h2 ! it) = Some g"
    by blast
  show ?case
  proof (cases "pyfloat_less (sum_sq ops g) threshold")
    case True
    with cg show ?thesis unfolding minimize_loop_Suc by simp
  next
    case False
    from notebook_record_step[OF assms(1,2) p2, of ops] obtain h4 where
      rs: "record_step ops it opt h2 = Inr (opt, h4)"
      and p4: "it < length h4" "grad_ok (h4 ! it)"
      by blast
    from Suc.IH[OF p4, of "r @ [length h2]"] cg rs False show ?thesis
      unfolding minimize_loop_Suc by simp
  qed
qed

text \<open>
  With \<open>MomentumGradientDescent\<close> and any objective, the loop keeps the value of the
  iterate, and every clone holds that value.
\<close>

lemma mgd_loop_frame:
  assumes "params m = [it]"
  shows "it < length h \<Longrightarrow> data (h ! it) = x \<Longrightarrow>
    \<forall>a\<in>set r. a < length h \<and> a \<noteq> it \<and> data (h ! a) = x \<Longrightarrow>
    minimize_loop ops f it n (Mgd m) h r = Inr (opt', h', r') \<Longrightarrow>
    opt' = Mgd m \<and> data (h' ! it) = x \<and> (\<forall>a\<in>set r'. data (h' ! a) = x) \<and>
    (\<forall>a<length h. a \<noteq> it \<longrightarrow> h' ! a = h ! a)"
proof (induction n arbitrary: h r)
  case 0
  then show ?case by auto
next
  case (Suc n)
  let ?h1 = "zero_grad_params ops [it] h"
  have zg: "optimizer_zero_grad ops (Mgd m) h = Inr (Mgd m, ?h1)"
    using assms by (simp add: GradientDescent_zero_grad_def)
  from Suc.prems(4) obtain h2 where bw: "backward ops f it ?h1 = Inr h2"
    unfolding minimize_loop.simps(2) zg by (auto split: sum.splits simp del: zero_grad_params.simps)
  from backward_frame[OF bw] zero_grad_single_frame[of ops it h] Suc.prems(1)
  have f2: "length h2 = length h" "\<forall>a. a \<noteq> it \<longrightarrow> h2 ! a = h ! a" "data (h2 ! it) = data (h ! it)"
    by auto
  from Suc.prems(4) obtain g where g: "grad (h2 ! it) = Some g"
    unfolding minimize_loop.simps(2) zg
    by (auto simp: bw split: option.splits simp del: zero_grad_params.simps)
  show ?case
  proof (cases "pyfloat_less (sum_sq ops g) threshold")
    case True
    with Suc.prems(4) have "opt' = Mgd m" "h' = h2" "r' = r"
      unfolding minimize_loop.simps(2) zg
      by (simp_all add: bw g del: zero_grad_params.simps)
    then show ?thesis using f2 Suc.prems(1,2,3) by auto
  next
    case False
    let ?h3 = "h2 @ [clone (h2 ! it)]"
    from False Suc.prems(4) have
      run: "minimize_loop ops f it n (Mgd m) ?h3 (r @ [length h]) = Inr (opt', h', r')"
      unfolding minimize_loop.simps(2) zg
      by (simp add: bw g alloc_def MomentumGradientDescent_step_def f2(1)
          del: zero_grad_params.simps)
    have p1: "it < length ?h3" using Suc.prems(1) f2(1) by simp
    have p2: "data (?h3 ! it) = x" using Suc.prems(1,2) f2 by (simp add: nth_append)
    have p3: "\<forall>a\<in>set (r @ [length h]). a < length ?h3 \<and> a \<noteq> it \<and> data (?h3 ! a) = x"
      using Suc.prems(1,2,3) f2 by (auto simp: nth_append clone_def)
    from Suc.IH[OF p1 p2 p3 run] have
      "opt' = Mgd m \<and> data (h' ! it) = x \<and> (\<forall>a\<in>set r'. data (h' ! a) = x) \<and>
       (\<forall>a<length ?h3. a \<noteq> it \<longrightarrow> h' ! a = ?h3 ! a)" .
    then show ?thesis using f2 by (auto simp: nth_append)
  qed
qed

lemma quad_grad_length: "\<forall>x. length (quad_grad x) = length x"
  by (simp add: quad_grad_def)

lemmas run_simps = minimize_def cat_def eval_nat_numeral backward_def objective_of_def
  quad_grad_def alloc_def clone_def GradientDescent_zero_grad_def GradientDescent_step_def
  MomentumGradientDescent_step_def isub_scaled_def real_ops_def threshold_def
  compute_grad_def record_step_def pass_grad_def

section \<open>Properties of the optimizers\<close>

text \<open>
  Claim C2, with the conditions under which it holds. For parameters that are pairwise
  distinct tensors of the store, each with a gradient, a call to
  \<open>GradientDescent.step\<close> updates each parameter in place by the rule
  \<open>x \<leftarrow> x - lr \<nabla>x\<close>: the call returns, no tensor is allocated, the new data of each
  parameter is its old data minus \<open>lr\<close> times its gradient, entry by entry in the
  library's arithmetic, its gradient is kept, and no other tensor changes.
\<close>

theorem GradientDescent_step_rule:
  assumes "distinct (params self)"
    and "\<forall>p\<in>set (params self). p < length h \<and> grad (h ! p) \<noteq> None"
  shows "\<exists>h'. GradientDescent_step ops self h = Inr (self, h') \<and> length h' = length h \<and>
    (\<forall>p\<in>set (params self).
       data (h' ! p) =
         map2 (isub ops) (data (h ! p)) (map (smul ops (lr self)) (the (grad (h ! p)))) \<and>
       grad (h' ! p) = grad (h ! p)) \<and>
    (\<forall>a<length h. a \<notin> set (params self) \<longrightarrow> h' ! a = h ! a)"
proof -
  from step_params_distinct[OF assms, of ops "lr self"] obtain h' where
    h': "step_params ops (lr self) (params self) h = Inr h'" "length h' = length h"
      "\<forall>a<length h. h' ! a =
        (if a \<in> set (params self)
         then (h ! a)\<lparr>data := isub_scaled ops (lr self) (data (h ! a)) (the (grad (h ! a)))\<rparr>
         else h ! a)" by blast
  have "GradientDescent_step ops self h = Inr (self, h')"
    using h'(1) by (simp add: GradientDescent_step_def)
  moreover have "\<forall>p\<in>set (params self).
       data (h' ! p) =
         map2 (isub ops) (data (h ! p)) (map (smul ops (lr self)) (the (grad (h ! p)))) \<and>
       grad (h' ! p) = grad (h ! p)"
    using h'(3) assms(2) by (auto simp: isub_scaled_def)
  moreover have "\<forall>a<length h. a \<notin> set (params self) \<longrightarrow> h' ! a = h ! a"
    using h'(3) by auto
  ultimately show ?thesis using h'(2) by blast
qed

theorem GradientDescent_step_rule_witness:
  "distinct [0, 2 :: nat] \<and>
   grad ([\<lparr>data = [1, 2], grad = Some [3, 4]\<rparr>, \<lparr>data = [5], grad = None\<rparr>,
          \<lparr>data = [6], grad = Some [7 :: real]\<rparr>] ! 0) = Some [3, 4] \<and>
   grad ([\<lparr>data = [1, 2], grad = Some [3, 4]\<rparr>, \<lparr>data = [5], grad = None\<rparr>,
          \<lparr>data = [6], grad = Some [7 :: real]\<rparr>] ! 2) = Some [7] \<and>
   GradientDescent_step real_ops \<lparr>params = [0, 2], lr = 1 / 2\<rparr>
       [\<lparr>data = [1, 2], grad = Some [3, 4]\<rparr>, \<lparr>data = [5], grad = None\<rparr>,
        \<lparr>data = [6], grad = Some [7]\<rparr>] =
     Inr (\<lparr>params = [0, 2], lr = 1 / 2\<rparr>,
          [\<lparr>data = [- 1 / 2, 0], grad = Some [3, 4]\<rparr>, \<lparr>data = [5], grad = None\<rparr>,
           \<lparr>data = [5 / 2], grad = Some [7]\<rparr>]) \<and>
   map2 (isub real_ops) [1, 2] (map (smul real_ops (1 / 2)) [3, 4]) = [- 1 / 2, 0]"
proof -
  let ?self = "\<lparr>params = [0, 2], lr = 1 / 2\<rparr>"
  let ?h = "[\<lparr>data = [1, 2], grad = Some [3, 4]\<rparr>, \<lparr>data = [5], grad = None\<rparr>,
             \<lparr>data = [6], grad = Some [7 :: real]\<rparr>]"
  have d: "distinct (params ?self)" by simp
  have g: "\<forall>p\<in>set (params ?self). p < length ?h \<and> grad (?h ! p) \<noteq> None" by simp
  have run: "GradientDescent_step real_ops ?self ?h =
     Inr (?self, [\<lparr>data = [- 1 / 2, 0], grad = Some [3, 4]\<rparr>, \<lparr>data = [5], grad = None\<rparr>,
           \<lparr>data = [5 / 2], grad = Some [7]\<rparr>])"
    by (simp add: GradientDescent_step_def isub_scaled_def real_ops_def)
  from GradientDescent_step_rule[OF d g, of real_ops] obtain h' where
    "GradientDescent_step real_ops ?self ?h = Inr (?self, h')"
    "data (h' ! 0) =
       map2 (isub real_ops) (data (?h ! 0)) (map (smul real_ops (lr ?self)) (the (grad (?h ! 0))))"
    by auto
  with run have
    "map2 (isub real_ops) [1, 2] (map (smul real_ops (1 / 2)) [3, 4]) = [- 1 / 2, 0]"
    by simp
  with run show ?thesis by simp
qed

text \<open>
  For every list of parameters the rule does not hold. A tensor listed twice is
  updated twice: from the value \<open>[4]\<close> with gradient \<open>[2]\<close> and \<open>lr = 0.5\<close> the call
  leaves \<open>[2]\<close>, where the rule gives \<open>[3]\<close>. A parameter without gradient makes the
  call raise \<^verbatim>\<open>TypeError\<close>.
\<close>

theorem GradientDescent_step_rule_counterexample:
  "GradientDescent_step real_ops \<lparr>params = [0, 0], lr = 1 / 2\<rparr>
       [\<lparr>data = [4], grad = Some [2]\<rparr>] =
     Inr (\<lparr>params = [0, 0], lr = 1 / 2\<rparr>, [\<lparr>data = [2], grad = Some [2]\<rparr>]) \<and>
   map2 (\<lambda>x g. x - 1 / 2 * g) [4] [2 :: real] = [3] \<and>
   GradientDescent_step real_ops \<lparr>params = [0], lr = 1 / 2\<rparr>
       [\<lparr>data = [4], grad = None\<rparr>] = Inl TypeError"
  by (simp add: GradientDescent_step_def isub_scaled_def real_ops_def)

text \<open>
  Claim C9. \<open>GradientDescent.zero_grad\<close> sets the gradient accumulator of each
  parameter to zero when it is not \<open>None\<close>, skips the parameters whose gradient is
  \<open>None\<close>, and leaves the data of every tensor, the gradient of every other tensor and
  the fields of the optimizer, the learning rate among them, unchanged.
\<close>

theorem GradientDescent_zero_grad_frame:
  assumes "GradientDescent_zero_grad ops self h = (self', h')"
  shows "self' = self \<and> lr self' = lr self \<and> params self' = params self \<and>
    length h' = length h \<and>
    (\<forall>a<length h. data (h' ! a) = data (h ! a) \<and>
       grad (h' ! a) =
         (if a \<in> set (params self)
          then (case grad (h ! a) of None \<Rightarrow> None | Some g \<Rightarrow> Some (map (\<lambda>_. zeros ops) g))
          else grad (h ! a)))"
  using assms
  by (auto simp: GradientDescent_zero_grad_def length_zero_grad_params nth_zero_grad_params
      split: option.splits)

theorem GradientDescent_zero_grad_frame_witness:
  "GradientDescent_zero_grad real_ops \<lparr>params = [0, 1], lr = 1 / 10\<rparr>
       [\<lparr>data = [1, 2], grad = Some [3, 4]\<rparr>, \<lparr>data = [5], grad = None\<rparr>,
        \<lparr>data = [6], grad = Some [7]\<rparr>] =
     (\<lparr>params = [0, 1], lr = 1 / 10\<rparr>,
      [\<lparr>data = [1, 2], grad = Some [0, 0]\<rparr>, \<lparr>data = [5], grad = None\<rparr>,
       \<lparr>data = [6], grad = Some [7]\<rparr>]) \<and>
   lr \<lparr>params = [0, 1 :: nat], lr = 1 / 10\<rparr> = 1 / 10 \<and>
   length [\<lparr>data = [1, 2], grad = Some [0, 0]\<rparr>, \<lparr>data = [5], grad = None\<rparr>,
           \<lparr>data = [6], grad = Some [7 :: real]\<rparr>] = 3"
proof -
  let ?self = "\<lparr>params = [0, 1], lr = 1 / 10\<rparr>"
  let ?h = "[\<lparr>data = [1, 2], grad = Some [3, 4]\<rparr>, \<lparr>data = [5], grad = None\<rparr>,
             \<lparr>data = [6], grad = Some [7 :: real]\<rparr>]"
  let ?h' = "[\<lparr>data = [1, 2], grad = Some [0, 0]\<rparr>, \<lparr>data = [5], grad = None\<rparr>,
              \<lparr>data = [6], grad = Some [7 :: real]\<rparr>]"
  have run: "GradientDescent_zero_grad real_ops ?self ?h = (?self, ?h')"
    by (simp add: GradientDescent_zero_grad_def real_ops_def)
  from GradientDescent_zero_grad_frame[OF run]
  have "lr ?self = lr ?self \<and> length ?h' = length ?h" by blast
  with run show ?thesis by simp
qed

text \<open>
  Claim C6. As written, \<open>MomentumGradientDescent.step\<close> does nothing: it returns the
  optimizer and the store as they are. So a run of \<open>minimize\<close> with this optimizer,
  on any objective and with any budget, that returns a trajectory leaves the value of
  the iterate and the velocity tensors as they were, and every row of the trajectory is
  the initial value of the iterate.
\<close>

theorem MomentumGradientDescent_step_noop:
  "MomentumGradientDescent_step m h = Inr (m, h) \<and>
   (params m = [it] \<and> it < length h \<and> (\<forall>v\<in>set (velocities m). v < length h \<and> v \<noteq> it) \<longrightarrow>
      (\<forall>ops f max_iter rows h' (opt' :: ('a, 's) optimizer).
         minimize ops f (Mgd m) max_iter h = Inr (rows, opt', h') \<longrightarrow>
           opt' = Mgd m \<and> data (h' ! it) = data (h ! it) \<and>
           (\<forall>v\<in>set (velocities m). h' ! v = h ! v) \<and>
           (\<forall>row\<in>set rows. row = data (h ! it))))"
proof (rule conjI)
  show "MomentumGradientDescent_step m h = Inr (m, h)"
    by (simp add: MomentumGradientDescent_step_def)
next
  show "params m = [it] \<and> it < length h \<and> (\<forall>v\<in>set (velocities m). v < length h \<and> v \<noteq> it) \<longrightarrow>
      (\<forall>ops f max_iter rows h' (opt' :: ('a, 's) optimizer).
         minimize ops f (Mgd m) max_iter h = Inr (rows, opt', h') \<longrightarrow>
           opt' = Mgd m \<and> data (h' ! it) = data (h ! it) \<and>
           (\<forall>v\<in>set (velocities m). h' ! v = h ! v) \<and>
           (\<forall>row\<in>set rows. row = data (h ! it)))"
  proof (intro impI allI)
    fix ops :: "'a torch_ops" and f :: "'a objective" and max_iter rows h'
      and opt' :: "('a, 's) optimizer"
    assume a: "params m = [it] \<and> it < length h \<and>
      (\<forall>v\<in>set (velocities m). v < length h \<and> v \<noteq> it)"
    assume run: "minimize ops f (Mgd m) max_iter h = Inr (rows, opt', h')"
    from a have p: "params m = [it]" "it < length h"
      and v: "\<forall>v\<in>set (velocities m). v < length h \<and> v \<noteq> it" by simp_all
    from run obtain r' where
      loop: "minimize_loop ops f it (nat max_iter) (Mgd m) h [] = Inr (opt', h', r')"
      and rows: "rows = map (\<lambda>a. data (h' ! a)) r'"
      using p(1) by (auto simp: minimize_def cat_def split: sum.splits if_splits)
    from mgd_loop_frame[OF p refl _ loop]
    have *: "opt' = Mgd m \<and> data (h' ! it) = data (h ! it) \<and>
        (\<forall>a\<in>set r'. data (h' ! a) = data (h ! it)) \<and>
        (\<forall>a<length h. a \<noteq> it \<longrightarrow> h' ! a = h ! a)" by simp
    have "\<forall>v\<in>set (velocities m). h' ! v = h ! v" using * v by auto
    moreover have "\<forall>row\<in>set rows. row = data (h ! it)" using * rows by auto
    ultimately show "opt' = Mgd m \<and> data (h' ! it) = data (h ! it) \<and>
           (\<forall>v\<in>set (velocities m). h' ! v = h ! v) \<and>
           (\<forall>row\<in>set rows. row = data (h ! it))"
      using * by simp
  qed
qed

theorem MomentumGradientDescent_step_noop_witness:
  "params \<lparr>params = [0 :: nat], lr = 1 / 10, momentum = 9 / 10, velocities = [1 :: nat]\<rparr> = [0] \<and>
   0 < length [\<lparr>data = [1 :: real], grad = None\<rparr>, \<lparr>data = [0], grad = None\<rparr>] \<and>
   1 < length [\<lparr>data = [1 :: real], grad = None\<rparr>, \<lparr>data = [0], grad = None\<rparr>] \<and>
   MomentumGradientDescent_step \<lparr>params = [0], lr = 1 / 10, momentum = 9 / 10, velocities = [1]\<rparr>
       [\<lparr>data = [1 :: real], grad = None\<rparr>, \<lparr>data = [0], grad = None\<rparr>] =
     Inr (\<lparr>params = [0], lr = 1 / 10, momentum = 9 / 10, velocities = [1]\<rparr>,
          [\<lparr>data = [1], grad = None\<rparr>, \<lparr>data = [0], grad = None\<rparr>]) \<and>
   minimize real_ops (objective_of quad_grad)
       (Mgd \<lparr>params = [0], lr = 1 / 10, momentum = 9 / 10, velocities = [1]\<rparr>
          :: (real, unit) optimizer) 2
       [\<lparr>data = [1], grad = None\<rparr>, \<lparr>data = [0], grad = None\<rparr>] =
     Inr ([[1], [1]], Mgd \<lparr>params = [0], lr = 1 / 10, momentum = 9 / 10, velocities = [1]\<rparr>,
          [\<lparr>data = [1], grad = Some [2]\<rparr>, \<lparr>data = [0], grad = None\<rparr>,
           \<lparr>data = [1], grad = None\<rparr>, \<lparr>data = [1], grad = None\<rparr>]) \<and>
   data ([\<lparr>data = [1 :: real], grad = Some [2]\<rparr>, \<lparr>data = [0], grad = None\<rparr>,
          \<lparr>data = [1], grad = None\<rparr>, \<lparr>data = [1], grad = None\<rparr>] ! 0) =
     data ([\<lparr>data = [1], grad = None\<rparr>, \<lparr>data = [0], grad = None\<rparr>] ! 0)"
proof -
  let ?m = "\<lparr>params = [0], lr = 1 / 10, momentum = 9 / 10, velocities = [1]\<rparr>"
  let ?h = "[\<lparr>data = [1 :: real], grad = None\<rparr>, \<lparr>data = [0], grad = None\<rparr>]"
  let ?h' = "[\<lparr>data = [1 :: real], grad = Some [2]\<rparr>, \<lparr>data = [0], grad = None\<rparr>,
              \<lparr>data = [1], grad = None\<rparr>, \<lparr>data = [1], grad = None\<rparr>]"
  have p: "params ?m = [0]" "0 < length ?h" "\<forall>v\<in>set (velocities ?m). v < length ?h \<and> v \<noteq> 0"
    by simp_all
  have run: "minimize real_ops (objective_of quad_grad) (Mgd ?m :: (real, unit) optimizer) 2 ?h =
      Inr ([[1], [1]], Mgd ?m, ?h')"
    by (simp add: run_simps)
  from MomentumGradientDescent_step_noop[of ?m ?h 0] p run
  have "MomentumGradientDescent_step ?m ?h = Inr (?m, ?h) \<and> data (?h' ! 0) = data (?h ! 0)"
    by blast
  with p run show ?thesis by simp
qed

text \<open>
  Claim C3. The notebook describes the momentum update \<open>v \<leftarrow> \<mu> v + \<nabla>x\<close>,
  \<open>x \<leftarrow> x - lr v\<close> for \<open>MomentumGradientDescent.step\<close>, but the body of the method
  is empty. On the optimizer that \<open>__init__\<close> builds for one parameter with value
  \<open>[0.8, 0.8]\<close> and gradient \<open>[1, 1]\<close>, with \<open>lr = 0.1\<close> and \<open>\<mu> = 0.9\<close>, the
  method leaves the value \<open>[0.8, 0.8]\<close> and the velocity \<open>[0, 0]\<close>, where the rule
  gives the value \<open>[0.7, 0.7]\<close> and the velocity \<open>[1, 1]\<close>. The notebook also asks
  to check that the method behaves as \<open>GradientDescent\<close> for \<open>momentum = 0\<close>: there
  \<open>GradientDescent.step\<close> gives \<open>[0.7, 0.7]\<close> and the method still \<open>[0.8, 0.8]\<close>.
\<close>

theorem MomentumGradientDescent_step_not_momentum_rule:
  "MomentumGradientDescent_init real_ops [0] (1 / 10) (9 / 10)
       [\<lparr>data = [8 / 10, 8 / 10], grad = Some [1, 1]\<rparr>] =
     (\<lparr>params = [0], lr = 1 / 10, momentum = 9 / 10, velocities = [1]\<rparr>,
      [\<lparr>data = [8 / 10, 8 / 10], grad = Some [1, 1]\<rparr>, \<lparr>data = [0, 0], grad = None\<rparr>]) \<and>
   MomentumGradientDescent_step
       \<lparr>params = [0], lr = 1 / 10, momentum = 9 / 10, velocities = [1]\<rparr>
       [\<lparr>data = [8 / 10, 8 / 10 :: real], grad = Some [1, 1]\<rparr>, \<lparr>data = [0, 0], grad = None\<rparr>] =
     Inr (\<lparr>params = [0], lr = 1 / 10, momentum = 9 / 10, velocities = [1]\<rparr>,
      [\<lparr>data = [8 / 10, 8 / 10], grad = Some [1, 1]\<rparr>, \<lparr>data = [0, 0], grad = None\<rparr>]) \<and>
   momentum_rule (1 / 10) (9 / 10) [8 / 10, 8 / 10] [0, 0] [1, 1] = ([7 / 10, 7 / 10], [1, 1]) \<and>
   MomentumGradientDescent_step
       \<lparr>params = [0], lr = 1 / 10, momentum = 0, velocities = [1]\<rparr>
       [\<lparr>data = [8 / 10, 8 / 10 :: real], grad = Some [1, 1]\<rparr>, \<lparr>data = [0, 0], grad = None\<rparr>] =
     Inr (\<lparr>params = [0], lr = 1 / 10, momentum = 0, velocities = [1]\<rparr>,
      [\<lparr>data = [8 / 10, 8 / 10], grad = Some [1, 1]\<rparr>, \<lparr>data = [0, 0], grad = None\<rparr>]) \<and>
   GradientDescent_step real_ops \<lparr>params = [0], lr = 1 / 10\<rparr>
       [\<lparr>data = [8 / 10, 8 / 10], grad = Some [1, 1]\<rparr>, \<lparr>data = [0, 0], grad = None\<rparr>] =
     Inr (\<lparr>params = [0], lr = 1 / 10\<rparr>,
      [\<lparr>data = [7 / 10, 7 / 10], grad = Some [1, 1]\<rparr>, \<lparr>data = [0, 0], grad = None\<rparr>])"
  by (simp add: MomentumGradientDescent_init_def alloc_def zeros_like_def
      MomentumGradientDescent_step_def momentum_rule_def GradientDescent_step_def
      isub_scaled_def real_ops_def)

section \<open>Properties of \<open>minimize\<close>\<close>

text \<open>
  Claim C1. For every objective, optimizer and budget \<open>max_iter\<close> (500 by default), and
  whatever the library's arithmetic, the loop of \<open>minimize\<close> executes at most
  \<open>max_iter\<close> iterations and stops early exactly when the squared norm of the gradient
  of the current iterate, as the library computes it, is below \<open>1e-6\<close>; otherwise it
  runs the full budget.

  Each pass that does not break appends one clone to \<open>iterate_record\<close> and calls
  \<open>optimizer.step\<close> once, so the length of the record counts these passes. When the
  loop returns: the record is no longer than the budget; in none of the recorded passes
  was the gradient below the threshold; if the record is shorter than the budget, the
  loop has returned from the next pass, on a gradient below the threshold, without
  stepping; if not, it has returned after the last pass of the budget; and when no pass
  of the budget meets a gradient below the threshold, the budget is used up. The loop
  raises only what a call of one of its passes raises, and with an optimizer of the
  notebook and an objective that does not raise it returns.
\<close>

theorem minimize_loop_iterations:
  "(\<forall>opt' h' iterate_record.
      minimize_loop ops f it (nat max_iter) opt h [] = Inr (opt', h', iterate_record) \<longrightarrow>
        length iterate_record \<le> nat max_iter \<and>
        (\<forall>j<length iterate_record. \<exists>o2 h2 g.
           pass_grad ops f it j opt h = Inr (o2, h2, g) \<and>
           \<not> pyfloat_less (sum_sq ops g) threshold) \<and>
        (length iterate_record < nat max_iter \<longrightarrow>
           (\<exists>g. pass_grad ops f it (length iterate_record) opt h = Inr (opt', h', g) \<and>
              pyfloat_less (sum_sq ops g) threshold)) \<and>
        (length iterate_record = nat max_iter \<longrightarrow>
           pass_state ops f it (nat max_iter) opt h = Inr (opt', h')) \<and>
        ((\<forall>j<nat max_iter. \<forall>o2 h2 g.
            pass_grad ops f it j opt h = Inr (o2, h2, g) \<longrightarrow>
            \<not> pyfloat_less (sum_sq ops g) threshold) \<longrightarrow>
           length iterate_record = nat max_iter)) \<and>
   (\<forall>e. minimize_loop ops f it (nat max_iter) opt h [] = Inl e \<longrightarrow>
      (\<exists>j<nat max_iter. pass_grad ops f it j opt h = Inl e \<or>
         pass_state ops f it (Suc j) opt h = Inl e)) \<and>
   (hasattr_params opt \<and> get_iterate opt = Inr it \<and> it < length h \<and> grad_ok (h ! it) \<and>
    f = objective_of gradf \<and> (\<forall>x. length (gradf x) = length x) \<longrightarrow>
      (\<exists>h' iterate_record.
         minimize_loop ops f it (nat max_iter) opt h [] = Inr (opt, h', iterate_record)))"
proof (intro conjI)
  show "\<forall>opt' h' iterate_record.
      minimize_loop ops f it (nat max_iter) opt h [] = Inr (opt', h', iterate_record) \<longrightarrow>
        length iterate_record \<le> nat max_iter \<and>
        (\<forall>j<length iterate_record. \<exists>o2 h2 g.
           pass_grad ops f it j opt h = Inr (o2, h2, g) \<and>
           \<not> pyfloat_less (sum_sq ops g) threshold) \<and>
        (length iterate_record < nat max_iter \<longrightarrow>
           (\<exists>g. pass_grad ops f it (length iterate_record) opt h = Inr (opt', h', g) \<and>
              pyfloat_less (sum_sq ops g) threshold)) \<and>
        (length iterate_record = nat max_iter \<longrightarrow>
           pass_state ops f it (nat max_iter) opt h = Inr (opt', h')) \<and>
        ((\<forall>j<nat max_iter. \<forall>o2 h2 g.
            pass_grad ops f it j opt h = Inr (o2, h2, g) \<longrightarrow>
            \<not> pyfloat_less (sum_sq ops g) threshold) \<longrightarrow>
           length iterate_record = nat max_iter)"
  proof (intro allI impI)
    fix opt' h' iterate_record
    assume run: "minimize_loop ops f it (nat max_iter) opt h [] = Inr (opt', h', iterate_record)"
    let ?n = "nat max_iter"
    let ?k = "length iterate_record"
    from minimize_loop_trace[OF run] have
      le: "?k \<le> ?n"
      and nb: "\<forall>j<?k. \<exists>o2 h2 g. pass_grad ops f it j opt h = Inr (o2, h2, g) \<and>
           \<not> pyfloat_less (sum_sq ops g) threshold"
      and br: "?k < ?n \<longrightarrow>
           (\<exists>g. pass_grad ops f it ?k opt h = Inr (opt', h', g) \<and>
              pyfloat_less (sum_sq ops g) threshold)"
      and full: "?k = ?n \<longrightarrow> pass_state ops f it ?n opt h = Inr (opt', h')"
      by auto
    have never: "(\<forall>j<?n. \<forall>o2 h2 g.
            pass_grad ops f it j opt h = Inr (o2, h2, g) \<longrightarrow>
            \<not> pyfloat_less (sum_sq ops g) threshold) \<longrightarrow> ?k = ?n"
    proof
      assume a: "\<forall>j<?n. \<forall>o2 h2 g.
            pass_grad ops f it j opt h = Inr (o2, h2, g) \<longrightarrow>
            \<not> pyfloat_less (sum_sq ops g) threshold"
      show "?k = ?n"
      proof (rule ccontr)
        assume "?k \<noteq> ?n"
        with le have lt: "?k < ?n" by simp
        with br obtain g where "pass_grad ops f it ?k opt h = Inr (opt', h', g)"
          "pyfloat_less (sum_sq ops g) threshold" by blast
        with a lt show False by blast
      qed
    qed
    from le nb br full never
    show "?k \<le> ?n \<and>
        (\<forall>j<?k. \<exists>o2 h2 g.
           pass_grad ops f it j opt h = Inr (o2, h2, g) \<and>
           \<not> pyfloat_less (sum_sq ops g) threshold) \<and>
        (?k < ?n \<longrightarrow>
           (\<exists>g. pass_grad ops f it ?k opt h = Inr (opt', h', g) \<and>
              pyfloat_less (sum_sq ops g) threshold)) \<and>
        (?k = ?n \<longrightarrow> pass_state ops f it ?n opt h = Inr (opt', h')) \<and>
        ((\<forall>j<?n. \<forall>o2 h2 g.
            pass_grad ops f it j opt h = Inr (o2, h2, g) \<longrightarrow>
            \<not> pyfloat_less (sum_sq ops g) threshold) \<longrightarrow> ?k = ?n)"
      by blast
  qed
next
  show "\<forall>e. minimize_loop ops f it (nat max_iter) opt h [] = Inl e \<longrightarrow>
      (\<exists>j<nat max_iter. pass_grad ops f it j opt h = Inl e \<or>
         pass_state ops f it (Suc j) opt h = Inl e)"
    using minimize_loop_raises[of ops f it "nat max_iter" opt h "[]"] by blast
next
  show "hasattr_params opt \<and> get_iterate opt = Inr it \<and> it < length h \<and> grad_ok (h ! it) \<and>
    f = objective_of gradf \<and> (\<forall>x. length (gradf x) = length x) \<longrightarrow>
      (\<exists>h' iterate_record.
         minimize_loop ops f it (nat max_iter) opt h [] = Inr (opt, h', iterate_record))"
    using notebook_loop_returns[of opt it gradf h ops "nat max_iter" "[]"] by blast
qed

theorem minimize_loop_iterations_witness:
  "hasattr_params (Gd \<lparr>params = [0], lr = 1 / 2\<rparr> :: (real, unit) optimizer) \<and>
   get_iterate (Gd \<lparr>params = [0], lr = 1 / 2\<rparr> :: (real, unit) optimizer) = Inr 0 \<and>
   0 < length [\<lparr>data = [1 :: real], grad = None\<rparr>] \<and>
   grad_ok ([\<lparr>data = [1 :: real], grad = None\<rparr>] ! 0) \<and>
   (\<forall>x. length (quad_grad x) = length x) \<and>
   minimize_loop real_ops (objective_of quad_grad) 0 (nat default_max_iter)
       (Gd \<lparr>params = [0], lr = 1 / 2\<rparr> :: (real, unit) optimizer)
       [\<lparr>data = [1], grad = None\<rparr>] [] =
     Inr (Gd \<lparr>params = [0], lr = 1 / 2\<rparr>,
          [\<lparr>data = [0], grad = Some [0]\<rparr>, \<lparr>data = [1], grad = None\<rparr>], [1]) \<and>
   length [1 :: nat] \<le> nat default_max_iter \<and>
   length [1 :: nat] < nat default_max_iter \<and>
   pass_grad real_ops (objective_of quad_grad) 0 0
       (Gd \<lparr>params = [0], lr = 1 / 2\<rparr> :: (real, unit) optimizer)
       [\<lparr>data = [1], grad = None\<rparr>] =
     Inr (Gd \<lparr>params = [0], lr = 1 / 2\<rparr>, [\<lparr>data = [1], grad = Some [2]\<rparr>], [2]) \<and>
   \<not> pyfloat_less (sum_sq real_ops [2]) threshold \<and>
   (\<exists>g. pass_grad real_ops (objective_of quad_grad) 0 (length [1 :: nat])
       (Gd \<lparr>params = [0], lr = 1 / 2\<rparr> :: (real, unit) optimizer)
       [\<lparr>data = [1], grad = None\<rparr>] =
     Inr (Gd \<lparr>params = [0], lr = 1 / 2\<rparr>,
          [\<lparr>data = [0], grad = Some [0]\<rparr>, \<lparr>data = [1], grad = None\<rparr>], g) \<and>
     pyfloat_less (sum_sq real_ops g) threshold)"
proof -
  let ?opt = "Gd \<lparr>params = [0], lr = 1 / 2\<rparr> :: (real, unit) optimizer"
  let ?h = "[\<lparr>data = [1 :: real], grad = None\<rparr>]"
  let ?h' = "[\<lparr>data = [0 :: real], grad = Some [0]\<rparr>, \<lparr>data = [1], grad = None\<rparr>]"
  let ?f = "objective_of quad_grad"
  have hyp: "hasattr_params ?opt \<and> get_iterate ?opt = Inr 0 \<and> 0 < length ?h \<and>
      grad_ok (?h ! 0) \<and> (\<forall>x. length (quad_grad x) = length x)"
    by (simp add: grad_ok_def quad_grad_def)
  have n: "nat default_max_iter = Suc (Suc (nat 498))"
    by (simp add: default_max_iter_def eval_nat_numeral)
  have run: "minimize_loop real_ops ?f 0 (nat default_max_iter) ?opt ?h [] = Inr (?opt, ?h', [1])"
    unfolding n by (simp add: run_simps)
  have p0: "pass_grad real_ops ?f 0 0 ?opt ?h =
      Inr (?opt, [\<lparr>data = [1], grad = Some [2]\<rparr>], [2])"
    by (simp add: run_simps)
  have nb0: "\<not> pyfloat_less (sum_sq real_ops [2]) threshold"
    by (simp add: real_ops_def threshold_def)
  from minimize_loop_iterations[of real_ops ?f 0 default_max_iter ?opt ?h quad_grad] run
  have "length [1 :: nat] \<le> nat default_max_iter \<and>
     (length [1 :: nat] < nat default_max_iter \<longrightarrow>
        (\<exists>g. pass_grad real_ops ?f 0 (length [1 :: nat]) ?opt ?h = Inr (?opt, ?h', g) \<and>
           pyfloat_less (sum_sq real_ops g) threshold))"
    by blast
  moreover have "length [1 :: nat] < nat default_max_iter"
    by (simp add: default_max_iter_def)
  ultimately show ?thesis using hyp run p0 nb0 by blast
qed

text \<open>
  Claim C7. When the squared norm of the gradient that the first pass computes at the
  initial iterate is already below \<open>1e-6\<close>, that pass breaks before any clone is
  recorded, \<^verbatim>\<open>torch.cat\<close> is called on the empty list, and \<open>minimize\<close> raises
  instead of returning an empty trajectory. This holds for any objective and optimizer;
  for an optimizer of the notebook and an objective that does not raise, the gradient
  of the first pass is the gradient of the objective at the initial iterate, added to
  the zeroed accumulator when the iterate has one.
\<close>

theorem minimize_converged_at_start_raises:
  "(get_iterate opt = Inr it \<and> compute_grad ops f it opt h = Inr (opt1, h2, g) \<and>
    pyfloat_less (sum_sq ops g) threshold \<longrightarrow>
      minimize ops f opt max_iter h = Inl RuntimeError \<and>
      minimize_loop ops f it (nat max_iter) opt h [] =
        (if 0 < max_iter then Inr (opt1, h2, []) else Inr (opt, h, []))) \<and>
   (hasattr_params opt \<and> get_iterate opt = Inr it \<and> it < length h \<and> grad_ok (h ! it) \<and>
    (\<forall>x. length (gradf x) = length x) \<and>
    pyfloat_less
      (sum_sq ops
         (case grad (h ! it) of
            None \<Rightarrow> gradf (data (h ! it))
          | Some g0 \<Rightarrow> map2 (iadd ops) (map (\<lambda>_. zeros ops) g0) (gradf (data (h ! it)))))
      threshold \<longrightarrow>
      minimize ops (objective_of gradf) opt max_iter h = Inl RuntimeError \<and>
      (\<exists>h'. minimize_loop ops (objective_of gradf) it (nat max_iter) opt h [] =
         Inr (opt, h', [])))"
proof -
  have general: "minimize ops f opt max_iter h = Inl RuntimeError \<and>
      minimize_loop ops f it (nat max_iter) opt h [] =
        (if 0 < max_iter then Inr (opt1, h2, []) else Inr (opt, h, []))"
    if a: "get_iterate opt = Inr it" "compute_grad ops f it opt h = Inr (opt1, h2, g)"
      "pyfloat_less (sum_sq ops g) threshold"
    for f opt1 h2 g
  proof -
    have loop: "minimize_loop ops f it (nat max_iter) opt h [] =
        (if 0 < max_iter then Inr (opt1, h2, []) else Inr (opt, h, []))"
    proof (cases "nat max_iter")
      case 0
      then show ?thesis by simp
    next
      case (Suc n)
      then have "0 < max_iter" by simp
      then show ?thesis unfolding Suc minimize_loop_Suc using a(2,3) by simp
    qed
    then show ?thesis using a(1) by (simp add: minimize_def cat_def)
  qed
  have notebook: "minimize ops (objective_of gradf) opt max_iter h = Inl RuntimeError \<and>
      (\<exists>h'. minimize_loop ops (objective_of gradf) it (nat max_iter) opt h [] =
         Inr (opt, h', []))"
    if b: "hasattr_params opt" "get_iterate opt = Inr it" "it < length h" "grad_ok (h ! it)"
      "\<forall>x. length (gradf x) = length x"
      "pyfloat_less
        (sum_sq ops
           (case grad (h ! it) of
              None \<Rightarrow> gradf (data (h ! it))
            | Some g0 \<Rightarrow> map2 (iadd ops) (map (\<lambda>_. zeros ops) g0) (gradf (data (h ! it)))))
        threshold"
  proof -
    from notebook_compute_grad[OF b(1-5), of ops] obtain h2' g' where
      cg: "compute_grad ops (objective_of gradf) it opt h = Inr (opt, h2', g')"
      and g': "g' = (case grad (h ! it) of
           None \<Rightarrow> gradf (data (h ! it))
         | Some g0 \<Rightarrow> map2 (iadd ops) (map (\<lambda>_. zeros ops) g0) (gradf (data (h ! it))))"
      by blast
    from b(6) g' have "pyfloat_less (sum_sq ops g') threshold" by simp
    from general[OF b(2) cg this] show ?thesis by (cases "0 < max_iter") auto
  qed
  show ?thesis using general notebook by blast
qed

theorem minimize_converged_at_start_raises_witness:
  "get_iterate (Gd \<lparr>params = [0], lr = 1 / 10\<rparr> :: (real, unit) optimizer) = Inr 0 \<and>
   compute_grad real_ops (objective_of quad_grad) 0
       (Gd \<lparr>params = [0], lr = 1 / 10\<rparr> :: (real, unit) optimizer)
       [\<lparr>data = [0, 0], grad = None\<rparr>] =
     Inr (Gd \<lparr>params = [0], lr = 1 / 10\<rparr>, [\<lparr>data = [0, 0], grad = Some [0, 0]\<rparr>], [0, 0]) \<and>
   pyfloat_less (sum_sq real_ops [0, 0]) threshold \<and>
   minimize real_ops (objective_of quad_grad)
       (Gd \<lparr>params = [0], lr = 1 / 10\<rparr> :: (real, unit) optimizer)
       default_max_iter [\<lparr>data = [0, 0], grad = None\<rparr>] = Inl RuntimeError"
proof -
  let ?opt = "Gd \<lparr>params = [0], lr = 1 / 10\<rparr> :: (real, unit) optimizer"
  let ?h = "[\<lparr>data = [0, 0 :: real], grad = None\<rparr>]"
  have hyp: "get_iterate ?opt = Inr 0"
    "compute_grad real_ops (objective_of quad_grad) 0 ?opt ?h =
       Inr (?opt, [\<lparr>data = [0, 0], grad = Some [0, 0]\<rparr>], [0, 0])"
    "pyfloat_less (sum_sq real_ops [0, 0]) threshold"
    by (simp_all add: run_simps)
  from minimize_converged_at_start_raises[of ?opt 0 real_ops "objective_of quad_grad" ?h
      ?opt "[\<lparr>data = [0, 0], grad = Some [0, 0]\<rparr>]" "[0, 0]" default_max_iter] hyp
  show ?thesis by blast
qed

text \<open>
  Claim C8, as the code has it. Take any objective, any optimizer that holds one
  iterate of the store, and a run of \<open>minimize\<close> that returns. It has performed
  \<open>k \<ge> 1\<close> optimizer steps, at most \<open>max_iter\<close>, and the returned tensor has
  exactly \<open>k\<close> rows. Row \<open>i\<close> (from 0) is the data that the iterate had right before
  optimizer step \<open>i + 1\<close>; it is the data of a tensor of its own, allocated at the
  address \<open>length h + i\<close>, which the later steps on the iterate have not changed. The
  run ends in the state after the \<open>k\<close>-th step (after the gradient computation of the
  next pass when the loop broke there): the value of the iterate after the last step
  is not appended to the trajectory.
\<close>

theorem minimize_trajectory:
  assumes "get_iterate opt = Inr it" "it < length h"
    "minimize ops f opt max_iter h = Inr (rows, opt', h')"
  shows "1 \<le> length rows \<and> length rows \<le> nat max_iter \<and>
    (\<forall>i<length rows. \<exists>o2 h2 g.
       pass_grad ops f it i opt h = Inr (o2, h2, g) \<and>
       rows ! i = data (h2 ! it) \<and>
       length h + i \<noteq> it \<and> data (h' ! (length h + i)) = rows ! i) \<and>
    (if length rows < nat max_iter
     then \<exists>g. pass_grad ops f it (length rows) opt h = Inr (opt', h', g)
     else pass_state ops f it (length rows) opt h = Inr (opt', h'))"
proof -
  let ?n = "nat max_iter"
  from assms(1,3) obtain r' where
    loop: "minimize_loop ops f it ?n opt h [] = Inr (opt', h', r')"
    and ne: "r' \<noteq> []" and rows: "rows = map (\<lambda>a. data (h' ! a)) r'"
    by (auto simp: minimize_def cat_def split: sum.splits if_splits)
  from minimize_loop_clones[OF assms(1,2) loop] obtain k where
    r': "r' = [length h ..< length h + k]"
    and cl: "\<forall>i<k. \<exists>o2 h2 g. pass_grad ops f it i opt h = Inr (o2, h2, g) \<and>
        data (h' ! (length h + i)) = data (h2 ! it)"
    by auto
  have len: "length rows = k" using rows r' by simp
  from minimize_loop_trace[OF loop] r' have
    le: "k \<le> ?n"
    and br: "k < ?n \<longrightarrow> (\<exists>g. pass_grad ops f it k opt h = Inr (opt', h', g))"
    and full: "k = ?n \<longrightarrow> pass_state ops f it ?n opt h = Inr (opt', h')"
    by auto
  have k1: "1 \<le> k" using ne r' by (cases k) simp_all
  have rws: "\<forall>i<k. \<exists>o2 h2 g.
       pass_grad ops f it i opt h = Inr (o2, h2, g) \<and>
       rows ! i = data (h2 ! it) \<and>
       length h + i \<noteq> it \<and> data (h' ! (length h + i)) = rows ! i"
    using cl rows r' assms(2) by auto
  have fin: "if k < ?n
     then \<exists>g. pass_grad ops f it k opt h = Inr (opt', h', g)
     else pass_state ops f it k opt h = Inr (opt', h')"
    using br full le by auto
  show ?thesis unfolding len using k1 le rws fin by blast
qed

theorem minimize_trajectory_witness:
  "get_iterate (Gd \<lparr>params = [0], lr = 1 / 4\<rparr> :: (real, unit) optimizer) = Inr 0 \<and>
   0 < length [\<lparr>data = [1 :: real], grad = None\<rparr>] \<and>
   minimize real_ops (objective_of quad_grad)
       (Gd \<lparr>params = [0], lr = 1 / 4\<rparr> :: (real, unit) optimizer) 2
       [\<lparr>data = [1], grad = None\<rparr>] =
     Inr ([[1], [1 / 2]], Gd \<lparr>params = [0], lr = 1 / 4\<rparr>,
          [\<lparr>data = [1 / 4], grad = Some [1]\<rparr>, \<lparr>data = [1], grad = None\<rparr>,
           \<lparr>data = [1 / 2], grad = None\<rparr>]) \<and>
   length [[1], [1 / 2 :: real]] \<le> nat 2 \<and>
   pass_grad real_ops (objective_of quad_grad) 0 0
       (Gd \<lparr>params = [0], lr = 1 / 4\<rparr> :: (real, unit) optimizer)
       [\<lparr>data = [1], grad = None\<rparr>] =
     Inr (Gd \<lparr>params = [0], lr = 1 / 4\<rparr>, [\<lparr>data = [1], grad = Some [2]\<rparr>], [2]) \<and>
   pass_grad real_ops (objective_of quad_grad) 0 1
       (Gd \<lparr>params = [0], lr = 1 / 4\<rparr> :: (real, unit) optimizer)
       [\<lparr>data = [1], grad = None\<rparr>] =
     Inr (Gd \<lparr>params = [0], lr = 1 / 4\<rparr>,
          [\<lparr>data = [1 / 2], grad = Some [1]\<rparr>, \<lparr>data = [1], grad = None\<rparr>], [1]) \<and>
   pass_state real_ops (objective_of quad_grad) 0 (length [[1], [1 / 2 :: real]])
       (Gd \<lparr>params = [0], lr = 1 / 4\<rparr> :: (real, unit) optimizer)
       [\<lparr>data = [1], grad = None\<rparr>] =
     Inr (Gd \<lparr>params = [0], lr = 1 / 4\<rparr>,
          [\<lparr>data = [1 / 4], grad = Some [1]\<rparr>, \<lparr>data = [1], grad = None\<rparr>,
           \<lparr>data = [1 / 2], grad = None\<rparr>])"
proof -
  let ?opt = "Gd \<lparr>params = [0], lr = 1 / 4\<rparr> :: (real, unit) optimizer"
  let ?h = "[\<lparr>data = [1 :: real], grad = None\<rparr>]"
  let ?h' = "[\<lparr>data = [1 / 4 :: real], grad = Some [1]\<rparr>, \<lparr>data = [1], grad = None\<rparr>,
           \<lparr>data = [1 / 2], grad = None\<rparr>]"
  let ?f = "objective_of quad_grad"
  have hyp: "get_iterate ?opt = Inr 0" "0 < length ?h" by simp_all
  have run: "minimize real_ops ?f ?opt 2 ?h = Inr ([[1], [1 / 2]], ?opt, ?h')"
    by (simp add: run_simps)
  have p0: "pass_grad real_ops ?f 0 0 ?opt ?h =
      Inr (?opt, [\<lparr>data = [1], grad = Some [2]\<rparr>], [2])"
    by (simp add: run_simps)
  have p1: "pass_grad real_ops ?f 0 1 ?opt ?h =
      Inr (?opt, [\<lparr>data = [1 / 2], grad = Some [1]\<rparr>, \<lparr>data = [1], grad = None\<rparr>], [1])"
    by (simp add: run_simps)
  from minimize_trajectory[OF hyp run]
  have "length [[1], [1 / 2 :: real]] \<le> nat 2 \<and>
    pass_state real_ops ?f 0 (length [[1], [1 / 2 :: real]]) ?opt ?h = Inr (?opt, ?h')"
    by simp
  with hyp run p0 p1 show ?thesis by blast
qed

text \<open>
  That the final value of the iterate is never in the returned trajectory does not
  hold: with \<open>MomentumGradientDescent\<close>, whose step changes nothing, the final value
  of the iterate is a row of the trajectory.
\<close>

theorem minimize_trajectory_counterexample:
  "minimize real_ops (objective_of quad_grad)
       (Mgd \<lparr>params = [0], lr = 1 / 10, momentum = 9 / 10, velocities = [1]\<rparr>
          :: (real, unit) optimizer) 2
       [\<lparr>data = [1], grad = None\<rparr>, \<lparr>data = [0], grad = None\<rparr>] =
     Inr ([[1], [1]], Mgd \<lparr>params = [0], lr = 1 / 10, momentum = 9 / 10, velocities = [1]\<rparr>,
          [\<lparr>data = [1], grad = Some [2]\<rparr>, \<lparr>data = [0], grad = None\<rparr>,
           \<lparr>data = [1], grad = None\<rparr>, \<lparr>data = [1], grad = None\<rparr>]) \<and>
   data ([\<lparr>data = [1 :: real], grad = Some [2]\<rparr>, \<lparr>data = [0], grad = None\<rparr>,
          \<lparr>data = [1], grad = None\<rparr>, \<lparr>data = [1], grad = None\<rparr>] ! 0)
     \<in> set [[1], [1]]"
  by (simp add: run_simps)

section \<open>Properties of the Gaussian modules\<close>

lemma quad_form_2:
  "quad_form [[a, b], [c, d]] [u, v] = u * a * u + u * b * v + v * c * u + v * d * v"
  by (simp add: quad_form_def)

text \<open>
  \<open>Gaussian.forward\<close> on a vector of two entries: the unnormalized likelihood
  \<open>exp (- 1/2 (x - m)\<^sup>T P (x - m))\<close>, as a tensor of one entry.
\<close>

lemma Gaussian_forward_vec:
  "Gaussian_forward \<lparr>precision = [[a, b], [c, d]], mean = [mx, my]\<rparr> (Vec [x, y]) =
     Inr [exp (- (1 / 2) * quad_form [[a, b], [c, d]] [x - mx, y - my])]"
  by (simp add: Gaussian_forward_def Gaussian_row_def row_matmul_def broadcast2_def quad_form_2
      algebra_simps)

lemma shape_Mat_ne_vec: "shape (Mat v) \<noteq> [n]"
  by (cases v) simp_all

text \<open>
  Claim C5. \<open>GaussianCombination\<close> constructed from two precision matrices, two means
  and the weights \<open>1\<close> and \<open>-1\<close> returns, for every input \<open>x\<close> of two entries, the
  difference of the two Gaussian bumps
  \<open>exp (- 1/2 (x - m1)\<^sup>T P1 (x - m1)) - exp (- 1/2 (x - m2)\<^sup>T P2 (x - m2))\<close>,
  as a tensor of one entry.
\<close>

theorem GaussianCombination_difference:
  "GaussianCombination_init [Mat [[a1, b1], [c1, d1]], Mat [[a2, b2], [c2, d2]]]
       [Vec [mx1, my1], Vec [mx2, my2]] [1, - 1] =
     Inr \<lparr>gaussians = [\<lparr>precision = [[a1, b1], [c1, d1]], mean = [mx1, my1]\<rparr>,
                       \<lparr>precision = [[a2, b2], [c2, d2]], mean = [mx2, my2]\<rparr>],
          weights = [1, - 1]\<rparr> \<and>
   GaussianCombination_forward
       \<lparr>gaussians = [\<lparr>precision = [[a1, b1], [c1, d1]], mean = [mx1, my1]\<rparr>,
                     \<lparr>precision = [[a2, b2], [c2, d2]], mean = [mx2, my2]\<rparr>],
        weights = [1, - 1]\<rparr> (Vec [x, y]) =
     Inr (Vec [exp (- (1 / 2) * quad_form [[a1, b1], [c1, d1]] [x - mx1, y - my1])
             - exp (- (1 / 2) * quad_form [[a2, b2], [c2, d2]] [x - mx2, y - my2])])"
  by (simp add: GaussianCombination_init_def GaussianCombination_forward_def
      Gaussian_forward_vec broadcast2_def)

text \<open>The objective of the notebook, at the mean of its first bump.\<close>

theorem GaussianCombination_difference_witness:
  "notebook_f =
     Inr \<lparr>gaussians = [\<lparr>precision = p1, mean = m1\<rparr>, \<lparr>precision = p2, mean = m2\<rparr>],
          weights = [1, - 1]\<rparr> \<and>
   GaussianCombination_forward
       \<lparr>gaussians = [\<lparr>precision = p1, mean = m1\<rparr>, \<lparr>precision = p2, mean = m2\<rparr>],
        weights = [1, - 1]\<rparr> (Vec [0, 1]) =
     Inr (Vec [1 - exp (- 45)])"
  unfolding notebook_f_def p1_def p2_def m1_def m2_def
  using GaussianCombination_difference[of 1 0 0 4 1 "- 2" "- 2" 10 0 1 0 "- 2" 0 1]
  by (simp add: quad_form_2)

section \<open>Errors of the notebook's own operations\<close>

text \<open>
  Claim C4, as the code has it. The operations of the notebook do raise errors of
  their own. \<open>Gaussian.__init__\<close> raises \<^verbatim>\<open>AssertionError\<close> unless the precision
  has the shape \<open>(2, 2)\<close> and the mean the shape \<open>(2,)\<close>.
  \<open>GaussianCombination.__init__\<close> raises \<^verbatim>\<open>AssertionError\<close> unless its three
  lists have one length. \<open>minimize\<close> raises \<^verbatim>\<open>ValueError\<close> when an optimizer of
  the notebook's two classes does not hold exactly one parameter; for an optimizer of
  the library it raises \<^verbatim>\<open>AssertionError\<close> when the optimizer does not have exactly
  one parameter group, and \<^verbatim>\<open>ValueError\<close> when its one group does not hold exactly
  one parameter.
\<close>

theorem own_assertions:
  "(Gaussian_init p m = Inl AssertionError) = (\<not> (shape p = [2, 2] \<and> shape m = [2])) \<and>
   ((\<exists>g. Gaussian_init p m = Inr g) = (shape p = [2, 2] \<and> shape m = [2])) \<and>
   ((length ps = length ms \<and> length ms = length ws) \<or>
      GaussianCombination_init ps ms ws = Inl AssertionError) \<and>
   get_iterate (Gd gd) =
     (if length (params gd) = 1 then Inr (hd (params gd)) else Inl ValueError) \<and>
   get_iterate (Mgd mgd) =
     (if length (params mgd) = 1 then Inr (hd (params mgd)) else Inl ValueError) \<and>
   get_iterate (Torch t) =
     (if length (param_groups t) = 1
      then (if length (hd (param_groups t)) = 1 then Inr (hd (hd (param_groups t)))
            else Inl ValueError)
      else Inl AssertionError) \<and>
   (length (params gd) = 1 \<or> minimize ops f (Gd gd) max_iter h = Inl ValueError) \<and>
   (length (params mgd) = 1 \<or> minimize ops f (Mgd mgd) max_iter h = Inl ValueError) \<and>
   (if length (param_groups t) = 1
    then length (hd (param_groups t)) = 1 \<or>
         minimize ops f (Torch t) max_iter h = Inl ValueError
    else minimize ops f (Torch t) max_iter h = Inl AssertionError)"
proof -
  have a: "(Gaussian_init p m = Inl AssertionError) = (\<not> (shape p = [2, 2] \<and> shape m = [2]))"
    by (cases "(p, m)" rule: Gaussian_init.cases)
      (auto split: if_splits simp: shape_Mat_ne_vec)
  have b: "(\<exists>g. Gaussian_init p m = Inr g) = (shape p = [2, 2] \<and> shape m = [2])"
    by (cases "(p, m)" rule: Gaussian_init.cases)
      (auto split: if_splits simp: shape_Mat_ne_vec)
  have c: "(length ps = length ms \<and> length ms = length ws) \<or>
      GaussianCombination_init ps ms ws = Inl AssertionError"
    by (simp add: GaussianCombination_init_def)
  have d: "length (params gd) = 1 \<or> minimize ops f (Gd gd) max_iter h = Inl ValueError"
    by (simp add: minimize_def unpack_single_eq)
  have e: "length (params mgd) = 1 \<or> minimize ops f (Mgd mgd) max_iter h = Inl ValueError"
    by (simp add: minimize_def unpack_single_eq)
  have t: "if length (param_groups t) = 1
    then length (hd (param_groups t)) = 1 \<or>
         minimize ops f (Torch t) max_iter h = Inl ValueError
    else minimize ops f (Torch t) max_iter h = Inl AssertionError"
    by (simp add: minimize_def unpack_single_eq)
  have g1: "get_iterate (Gd gd) =
     (if length (params gd) = 1 then Inr (hd (params gd)) else Inl ValueError)"
    by (simp add: unpack_single_eq)
  have g2: "get_iterate (Mgd mgd) =
     (if length (params mgd) = 1 then Inr (hd (params mgd)) else Inl ValueError)"
    by (simp add: unpack_single_eq)
  have g3: "get_iterate (Torch t) =
     (if length (param_groups t) = 1
      then (if length (hd (param_groups t)) = 1 then Inr (hd (hd (param_groups t)))
            else Inl ValueError)
      else Inl AssertionError)"
    by (simp add: unpack_single_eq)
  show ?thesis by (intro conjI a b c d e t g1 g2 g3)
qed

theorem own_assertions_witness:
  "Gaussian_init (Mat [[1, 0], [0, 4]]) (Vec [0, 1, 2]) = Inl AssertionError \<and>
   Gaussian_init (Mat p1) (Vec m1) = Inr \<lparr>precision = p1, mean = m1\<rparr> \<and>
   minimize real_ops (objective_of quad_grad)
     (Gd \<lparr>params = [], lr = 1 / 10\<rparr> :: (real, unit) optimizer) 500
     [\<lparr>data = [1], grad = None\<rparr>] = Inl ValueError \<and>
   minimize real_ops (objective_of quad_grad)
     (Torch \<lparr>param_groups = [[0], [0]], torch_state = (),
        torch_zero_grad = (\<lambda>s ts. Inr (s, ts)), torch_step = (\<lambda>s ts. Inr (s, ts))\<rparr>) 500
     [\<lparr>data = [1], grad = None\<rparr>] = Inl AssertionError"
  using own_assertions[of "Mat [[1, 0], [0, 4]]" "Vec [0, 1, 2]" "[]" "[]" "[]"
      "\<lparr>params = [], lr = 1 / 10\<rparr>"
      "\<lparr>params = [], lr = 1 / 10, momentum = 9 / 10, velocities = []\<rparr>"
      "\<lparr>param_groups = [[0], [0]], torch_state = (),
         torch_zero_grad = (\<lambda>s ts. Inr (s, ts)), torch_step = (\<lambda>s ts. Inr (s, ts))\<rparr>"
      real_ops "objective_of quad_grad" 500 "[\<lparr>data = [1], grad = None\<rparr>]"]
  by (auto simp: p1_def m1_def)

text \<open>
  That no operation of the notebook raises or asserts an error of its own does not
  hold: a precision matrix of shape \<open>(3, 3)\<close>, three lists of different lengths and an
  optimizer with two parameters each make the notebook's own code raise.
\<close>

theorem own_assertions_counterexample:
  "Gaussian_init (Mat [[1, 0, 0], [0, 1, 0], [0, 0, 1]]) (Vec [0, 1]) = Inl AssertionError \<and>
   GaussianCombination_init [Mat p1, Mat p2] [Vec m1, Vec m2] [1] = Inl AssertionError \<and>
   minimize real_ops (objective_of quad_grad)
     (Gd \<lparr>params = [0, 1], lr = 1 / 10\<rparr> :: (real, unit) optimizer) 500
     [\<lparr>data = [1], grad = None\<rparr>, \<lparr>data = [2], grad = None\<rparr>] = Inl ValueError"
  by (simp add: GaussianCombination_init_def minimize_def)

end
